theory Spec2Isabelle
  imports Main "HOL-Library.Sublist" "HOL-Library.Monad_Syntax" "HOL-Library.Extended_Nat"
    "HOL-Library.Log_Nat"
begin

section \<open>JavaScript string primitives\<close>

text \<open>
  A JavaScript string is a sequence of UTF-16 code units and \<open>length\<close>, \<open>slice\<close>,
  \<open>indexOf\<close> and \<open>includes\<close> count and compare code units. The model takes a string to
  be a \<^typ>\<open>char list\<close>, one \<^typ>\<open>char\<close> per code unit, which covers every text whose code
  units lie in the Latin-1 range \<open>0x00..0xFF\<close>. The character classes below are the
  JavaScript ones restricted to that range.
\<close>

definition is_ws :: "char \<Rightarrow> bool" where
  \<comment> \<open>\<open>\s\<close> of a regular expression and the characters \<open>trim\<close> removes: TAB, LF, VT, FF, CR,
      SPACE, NBSP.\<close>
  "is_ws c = (of_char c \<in> {9, 10, 11, 12, 13, 32, 160 :: nat})"

definition trim :: "string \<Rightarrow> string" where
  "trim s = rev (dropWhile is_ws (rev (dropWhile is_ws s)))"

definition js_slice :: "'a list \<Rightarrow> int \<Rightarrow> int \<Rightarrow> 'a list" where
  \<comment> \<open>\<open>s.slice(b, e)\<close>: a negative index counts from the end, both are clamped to
      \<open>0..length\<close>, and an empty range gives the empty string.\<close>
  "js_slice s b e =
     (let n = int (length s);
          from = (if b < 0 then max (n + b) 0 else min b n);
          to = (if e < 0 then max (n + e) 0 else min e n)
      in take (nat (to - from)) (drop (nat from) s))"

fun index_from :: "'a list \<Rightarrow> 'a list \<Rightarrow> nat \<Rightarrow> int" where
  \<comment> \<open>the first position, counted from \<open>i\<close>, at which \<open>pat\<close> starts in the rest of the text\<close>
  "index_from pat [] i = (if pat = [] then int i else -1)"
| "index_from pat (c # cs) i =
     (if prefix pat (c # cs) then int i else index_from pat cs (Suc i))"

definition indexOf :: "'a list \<Rightarrow> 'a list \<Rightarrow> int \<Rightarrow> int" where
  \<comment> \<open>\<open>s.indexOf(pat, from)\<close>: \<open>from\<close> is clamped to \<open>0..length\<close>; \<open>-1\<close> when there is no
      occurrence at or after it.\<close>
  "indexOf s pat from =
     (let k = nat (min (max from 0) (int (length s))) in index_from pat (drop k s) k)"

definition js_includes :: "'a list \<Rightarrow> 'a list \<Rightarrow> bool" where
  \<comment> \<open>\<open>s.includes(pat)\<close>\<close>
  "js_includes s pat = (indexOf s pat 0 \<noteq> -1)"

section \<open>The chunker (\<open>chunkText\<close>, \<open>findSentenceEnd\<close>)\<close>

record TextChunkData =
  "text" :: string
  startPosition :: int
  endPosition :: int

definition sentenceEnders :: "string list" where
  "sentenceEnders = [''. '', [CHR ''.'', CHR 0x0A], ''! '', [CHR ''!'', CHR 0x0A],
                     ''? '', [CHR ''?'', CHR 0x0A]]"

text \<open>
  The inner \<open>while\<close> loop of \<open>findSentenceEnd\<close> for one terminator: \<open>pos\<close> is the current
  occurrence (\<open>-1\<close> for none), \<open>bestPos\<close> the value carried over from the terminators
  already tried. The result is the value of \<open>bestPos\<close> when the loop is left. The loop is
  written for any terminator string, so it is a partial function: \<open>None\<close> is a run that
  never leaves the loop.
\<close>

partial_function (option) ender_loop :: "string \<Rightarrow> string \<Rightarrow> int \<Rightarrow> int \<Rightarrow> int \<Rightarrow> int option" where
  "ender_loop txt ender targetLength pos bestPos =
     (if pos \<noteq> -1 \<and> pos \<le> targetLength + 50 then
        (if pos \<ge> targetLength - 50 then Some (pos + int (length ender))
         else ender_loop txt ender targetLength (indexOf txt ender (pos + 1)) bestPos)
      else Some bestPos)"

declare ender_loop.simps [code]

fun enders_loop :: "string \<Rightarrow> int \<Rightarrow> string list \<Rightarrow> int \<Rightarrow> int option" where
  \<comment> \<open>the \<open>for (const ender of sentenceEnders)\<close> loop\<close>
  "enders_loop txt targetLength [] bestPos = Some bestPos"
| "enders_loop txt targetLength (ender # rest) bestPos =
     do {
       b \<leftarrow> ender_loop txt ender targetLength (indexOf txt ender 0) bestPos;
       enders_loop txt targetLength rest b
     }"

definition findSentenceEnd :: "string \<Rightarrow> int \<Rightarrow> int option" where
  "findSentenceEnd txt targetLength = enders_loop txt targetLength sentenceEnders (-1)"

text \<open>
  The \<open>while (start < text.length)\<close> loop of \<open>chunkText\<close>, with the cursor \<open>start\<close> and the
  array \<open>chunks\<close> as loop state. \<open>chunkSize\<close> and \<open>overlap\<close> are JavaScript numbers that
  callers give as integers; the cursor can become negative, so it is an \<^typ>\<open>int\<close>.
  \<open>None\<close> is a run that never returns.
\<close>

partial_function (option) chunk_loop ::
  "string \<Rightarrow> int \<Rightarrow> int \<Rightarrow> int \<Rightarrow> TextChunkData list \<Rightarrow> TextChunkData list option" where
  "chunk_loop txt chunkSize overlap start chunks =
     (if start < int (length txt) then
        do {
          end' \<leftarrow>
            (if start + chunkSize < int (length txt) then
               do {
                 sentenceEnd \<leftarrow>
                   findSentenceEnd
                     (js_slice txt start (min (start + chunkSize + 100) (int (length txt))))
                     chunkSize;
                 Some (if sentenceEnd > 0 then start + sentenceEnd else start + chunkSize)
               }
             else Some (start + chunkSize));
          let chunkText = js_slice txt start end';
          let chunks' =
            (if trim chunkText \<noteq> []
             then chunks @ [\<lparr>text = chunkText, startPosition = start, endPosition = end'\<rparr>]
             else chunks);
          let start' = end' - overlap;
          if start' \<ge> int (length txt) - overlap then Some chunks'
          else chunk_loop txt chunkSize overlap start' chunks'
        }
      else Some chunks)"

declare chunk_loop.simps [code]

definition chunkText :: "string \<Rightarrow> int \<Rightarrow> int \<Rightarrow> TextChunkData list option" where
  "chunkText txt chunkSize overlap = chunk_loop txt chunkSize overlap 0 []"

definition chunkText_default :: "string \<Rightarrow> TextChunkData list option" where
  \<comment> \<open>the call \<open>chunkText(text)\<close> with the default parameters\<close>
  "chunkText_default txt = chunkText txt 500 50"

section \<open>JavaScript numbers\<close>

text \<open>
  A JavaScript number is an IEEE 754 double. The model takes a double to be the rational
  number it stands for, and an arithmetic operation to be the exact operation followed by
  rounding to the nearest double, ties to the even significand. A decimal literal is
  rounded in the same way. The rounding below is the one of the normal range (magnitudes
  from \<open>2^-1022\<close> to below \<open>2^1024\<close>); the scores and ratios it is applied to are \<open>0\<close> or lie
  between \<open>2^-53\<close> and \<open>1\<close>.
\<close>

definition binade :: "rat \<Rightarrow> int" where
  \<comment> \<open>for \<open>x > 0\<close>, the exponent \<open>e\<close> with \<open>2^e \<le> x < 2^(e+1)\<close>\<close>
  "binade x =
     (case quotient_of x of (a, b) \<Rightarrow>
        let d = bitlen a - bitlen b in if power_int 2 d \<le> x then d else d - 1)"

definition round_half_even :: "rat \<Rightarrow> int" where
  \<comment> \<open>the nearest integer, the even one of two that are equally near\<close>
  "round_half_even q =
     (let f = \<lfloor>q\<rfloor>; r = q - of_int f
      in if r < 1 / 2 then f else if 1 / 2 < r then f + 1 else if even f then f else f + 1)"

definition to_double :: "rat \<Rightarrow> rat" where
  \<comment> \<open>the nearest double: a significand of 53 bits times a power of two\<close>
  "to_double x =
     (if x = 0 then 0
      else
        let ulp = power_int 2 (binade \<bar>x\<bar> - 52)
        in sgn x * of_int (round_half_even (\<bar>x\<bar> / ulp)) * ulp)"

section \<open>Lexical scoring (\<open>textMatchScore\<close>, \<open>getRelevanceLevel\<close>)\<close>

definition lower_char :: "char \<Rightarrow> char" where
  \<comment> \<open>\<open>toLowerCase\<close> on one Latin-1 code unit: \<open>A..Z\<close> and \<open>0xC0..0xDE\<close> without \<open>0xD7\<close> move up
      by \<open>0x20\<close>.\<close>
  "lower_char c =
     (let n = (of_char c :: nat)
      in if (65 \<le> n \<and> n \<le> 90) \<or> (192 \<le> n \<and> n \<le> 222 \<and> n \<noteq> 215) then char_of (n + 32) else c)"

definition toLowerCase :: "string \<Rightarrow> string" where
  "toLowerCase s = map lower_char s"

function js_split_ws :: "string \<Rightarrow> string list" where
  \<comment> \<open>\<open>s.split(/\s+/)\<close>: the pieces between the maximal runs of whitespace; a string that
      starts or ends with whitespace has an empty first or last piece, and the empty string
      gives one empty piece.\<close>
  "js_split_ws s =
     (let w = takeWhile (\<lambda>c. \<not> is_ws c) s;
          r = dropWhile (\<lambda>c. \<not> is_ws c) s
      in if r = [] then [w] else w # js_split_ws (dropWhile is_ws r))"
  by pat_completeness auto

lemma dropWhile_shorter: "r \<noteq> [] \<Longrightarrow> P (hd r) \<Longrightarrow> length (dropWhile P r) < length r"
  by (cases r) (auto simp: less_Suc_eq_le length_dropWhile_le)

lemma hd_dropWhile_not:
  "dropWhile (\<lambda>c. \<not> P c) s \<noteq> [] \<Longrightarrow> P (hd (dropWhile (\<lambda>c. \<not> P c) s))"
  using hd_dropWhile[of "\<lambda>c. \<not> P c" s] by simp

termination js_split_ws
proof (relation "measure length")
  show "wf (measure length)" by simp
next
  fix s :: string and w r
  assume r: "r = dropWhile (\<lambda>c. \<not> is_ws c) s" and ne: "r \<noteq> []"
  have "length (dropWhile is_ws r) < length r"
    using dropWhile_shorter[OF ne, of is_ws] hd_dropWhile_not[of is_ws s] ne r by simp
  moreover have "length r \<le> length s"
    using r by (simp add: length_dropWhile_le)
  ultimately show "(dropWhile is_ws r, s) \<in> measure length" by simp
qed

declare js_split_ws.simps [simp del]

definition TEXT_MATCH_SCORE :: rat where
  \<comment> \<open>the literal \<open>0.6\<close>\<close>
  "TEXT_MATCH_SCORE = to_double (6 / 10)"

definition textMatchScore :: "string \<Rightarrow> string \<Rightarrow> rat" where
  \<comment> \<open>\<open>matchedWords\<close> and \<open>queryWords.length\<close> are integers, which are doubles as they are;
      \<open>0.5\<close> is a double.\<close>
  "textMatchScore query txt =
     (let queryLower = toLowerCase query;
          textLower = toLowerCase txt
      in if js_includes textLower queryLower then to_double (TEXT_MATCH_SCORE + to_double (3 / 10))
         else
           let queryWords = filter (\<lambda>w. length w > 2) (js_split_ws queryLower)
           in if length queryWords = 0 then 0
              else
                let matchedWords =
                      fold (\<lambda>word m. if js_includes textLower word then m + 1 else m)
                        queryWords (0 :: nat);
                    matchRatio = to_double (of_nat matchedWords / of_nat (length queryWords))
                in if matchRatio \<ge> 1 / 2 then to_double (TEXT_MATCH_SCORE * matchRatio) else 0)"

datatype RelevanceLevel = high | medium | low

definition getRelevanceLevel :: "rat \<Rightarrow> RelevanceLevel" where
  "getRelevanceLevel similarity =
     (if similarity \<ge> to_double (7 / 10) then high
      else if similarity \<ge> to_double (5 / 10) then medium else low)"

section \<open>Stored data\<close>

text \<open>
  The tables come from \<open>@shared/schema\<close>, which is not among the sources; the records hold
  the columns the functions read. A nullable text column is a \<^typ>\<open>string option\<close>.
  \<open>citationData\<close> is a JSON object that the search only passes on.
\<close>

datatype CitationData = CitationData string

record Project =
  project_id :: string
  project_name :: string
  project_contextSummary :: "string option"
  project_thesis :: "string option"

record Folder =
  folder_id :: string
  folder_projectId :: string
  folder_name :: string
  folder_description :: "string option"
  folder_contextSummary :: "string option"

record ProjectDocument =
  pd_id :: string
  pd_projectId :: string
  pd_documentId :: string
  pd_folderId :: "string option"
  pd_retrievalContext :: "string option"
  pd_citationData :: "CitationData option"

record Document =
  doc_id :: string
  doc_filename :: string
  doc_fullText :: string
  doc_summary :: "string option"
  doc_userIntent :: "string option"

record ProjectAnnotation =
  ann_id :: string
  ann_projectDocumentId :: string
  ann_category :: string
  ann_searchableContent :: "string option"
  ann_highlightedText :: string
  ann_note :: "string option"
  ann_startPosition :: int

type_synonym embedding_vector = "rat list"

record Chunk =
  chunk_id :: string
  chunk_documentId :: string
  chunk_text :: string
  chunk_startPosition :: int
  chunk_endPosition :: int
  chunk_embedding :: "embedding_vector option"

text \<open>
  The state the operations run in: the tables, and the log of the texts sent to the
  embedding provider (\<open>getEmbedding\<close>), in the order of the calls.
\<close>

record state =
  projects :: "Project list"
  folders :: "Folder list"
  projectDocuments :: "ProjectDocument list"
  documents :: "Document list"
  projectAnnotations :: "ProjectAnnotation list"
  chunks :: "Chunk list"
  provider_calls :: "string list"

definition getChunksForDocument :: "string \<Rightarrow> state \<Rightarrow> Chunk list" where
  \<comment> \<open>Modelled from the spec: \<open>storage.getChunksForDocument\<close> (the persistence layer is not
      among the sources) reads the chunks keyed by document id, in chunk order.\<close>
  "getChunksForDocument docId st = filter (\<lambda>c. chunk_documentId c = docId) (chunks st)"

definition updateChunkEmbedding :: "string \<Rightarrow> embedding_vector \<Rightarrow> state \<Rightarrow> state" where
  \<comment> \<open>Modelled from the spec: \<open>storage.updateChunkEmbedding(chunkId, vector)\<close> (the persistence
      layer is not among the sources) stores the vector on the chunk of that id.\<close>
  "updateChunkEmbedding chunkId v st =
     st\<lparr>chunks := map (\<lambda>c. if chunk_id c = chunkId then c\<lparr>chunk_embedding := Some v\<rparr> else c)
                      (chunks st)\<rparr>"

definition getEmbedding_call :: "(string \<Rightarrow> embedding_vector) \<Rightarrow> string \<Rightarrow> state \<Rightarrow> embedding_vector \<times> state" where
  \<comment> \<open>one call \<open>await getEmbedding(t)\<close>: the provider answers and the call is logged\<close>
  "getEmbedding_call provider t st = (provider t, st\<lparr>provider_calls := provider_calls st @ [t]\<rparr>)"

section \<open>JavaScript truthiness of nullable strings\<close>

definition truthy :: "string option \<Rightarrow> bool" where
  \<comment> \<open>\<open>null\<close> and the empty string are falsy\<close>
  "truthy v = (case v of None \<Rightarrow> False | Some s \<Rightarrow> s \<noteq> [])"

definition or_else :: "string option \<Rightarrow> string \<Rightarrow> string" where
  \<comment> \<open>\<open>a || b\<close> with \<open>b\<close> a string\<close>
  "or_else a b = (case a of None \<Rightarrow> b | Some s \<Rightarrow> if s \<noteq> [] then s else b)"

definition or_undefined :: "string option \<Rightarrow> string option" where
  \<comment> \<open>\<open>a || undefined\<close>\<close>
  "or_undefined a = (if truthy a then a else None)"

fun js_join :: "string \<Rightarrow> string list \<Rightarrow> string" where
  \<comment> \<open>\<open>xs.join(sep)\<close>\<close>
  "js_join sep [] = []"
| "js_join sep [x] = x"
| "js_join sep (x # y # ys) = x @ sep @ js_join sep (y # ys)"

definition join_truthy :: "string option list \<Rightarrow> string" where
  \<comment> \<open>\<open>[...].filter(Boolean).join(' ')\<close>\<close>
  "join_truthy vs = js_join '' '' (map the (filter truthy vs))"

section \<open>Global search (\<open>globalSearch\<close>)\<close>

datatype ResultType = folder_context | document_context | annotation

record GlobalSearchResult =
  result_type :: ResultType
  folderId :: "string option"
  folderName :: "string option"
  documentId :: "string option"
  documentFilename :: "string option"
  annotationId :: "string option"
  matchedText :: string
  highlightedText :: "string option"
  "note" :: "string option"
  category :: "string option"
  citationData :: "CitationData option"
  similarityScore :: rat
  relevanceLevel :: RelevanceLevel
  result_startPosition :: "int option"

record SearchFilters =
  categories :: "string list option"
  folderIds :: "string list option"
  documentIds :: "string list option"

text \<open>
  The response without \<open>searchTime\<close>, which is a difference of two readings of the wall
  clock.
\<close>

record SearchResponse =
  results :: "GlobalSearchResult list"
  totalResults :: nat

definition filter_categories :: "SearchFilters option \<Rightarrow> string list option" where
  \<comment> \<open>\<open>filters?.categories\<close>\<close>
  "filter_categories f = (case f of None \<Rightarrow> None | Some x \<Rightarrow> categories x)"

definition filter_folderIds :: "SearchFilters option \<Rightarrow> string list option" where
  \<comment> \<open>\<open>filters?.folderIds\<close>\<close>
  "filter_folderIds f = (case f of None \<Rightarrow> None | Some x \<Rightarrow> folderIds x)"

definition filter_documentIds :: "SearchFilters option \<Rightarrow> string list option" where
  \<comment> \<open>\<open>filters?.documentIds\<close>\<close>
  "filter_documentIds f = (case f of None \<Rightarrow> None | Some x \<Rightarrow> documentIds x)"

definition not_listed :: "string list option \<Rightarrow> string \<Rightarrow> bool" where
  \<comment> \<open>\<open>list && !list.includes(x)\<close>: an array, even an empty one, is truthy\<close>
  "not_listed list x = (case list of None \<Rightarrow> False | Some ids \<Rightarrow> x \<notin> set ids)"

definition project_results :: "string \<Rightarrow> Project \<Rightarrow> GlobalSearchResult list" where
  "project_results query project =
     (if truthy (project_contextSummary project) \<or> truthy (project_thesis project) then
        let textToMatch =
              join_truthy [project_contextSummary project, project_thesis project,
                           Some (project_name project)];
            score = textMatchScore query textToMatch
        in if score > 0 then
             [\<lparr>result_type = folder_context, folderId = None, folderName = None,
               documentId = None, documentFilename = None, annotationId = None,
               matchedText =
                 or_else (project_contextSummary project)
                   (or_else (project_thesis project) (project_name project)),
               highlightedText = None, note = None, category = None, citationData = None,
               similarityScore = score, relevanceLevel = getRelevanceLevel score,
               result_startPosition = None\<rparr>]
           else []
      else [])"

definition folder_excluded :: "SearchFilters option \<Rightarrow> Folder \<Rightarrow> bool" where
  \<comment> \<open>the \<open>continue\<close> of the folder loop\<close>
  "folder_excluded filters folder = not_listed (filter_folderIds filters) (folder_id folder)"

definition folder_results :: "string \<Rightarrow> SearchFilters option \<Rightarrow> Folder \<Rightarrow> GlobalSearchResult list" where
  "folder_results query filters folder =
     (if folder_excluded filters folder then []
      else
        let textToMatch =
              join_truthy [folder_contextSummary folder, folder_description folder,
                           Some (folder_name folder)];
            score = textMatchScore query textToMatch
        in if score > 0 then
             [\<lparr>result_type = folder_context, folderId = Some (folder_id folder),
               folderName = Some (folder_name folder),
               documentId = None, documentFilename = None, annotationId = None,
               matchedText =
                 or_else (folder_contextSummary folder)
                   (or_else (folder_description folder) (folder_name folder)),
               highlightedText = None, note = None, category = None, citationData = None,
               similarityScore = score, relevanceLevel = getRelevanceLevel score,
               result_startPosition = None\<rparr>]
           else [])"

definition excluded_by_documentIds :: "SearchFilters option \<Rightarrow> ProjectDocument \<Rightarrow> bool" where
  \<comment> \<open>\<open>filters?.documentIds && !filters.documentIds.includes(projectDoc.id)\<close>\<close>
  "excluded_by_documentIds filters projectDoc =
     not_listed (filter_documentIds filters) (pd_id projectDoc)"

definition excluded_by_folderIds :: "SearchFilters option \<Rightarrow> ProjectDocument \<Rightarrow> bool" where
  \<comment> \<open>\<open>filters?.folderIds && projectDoc.folderId &&
      !filters.folderIds.includes(projectDoc.folderId)\<close>\<close>
  "excluded_by_folderIds filters projectDoc =
     (filter_folderIds filters \<noteq> None \<and> truthy (pd_folderId projectDoc) \<and>
      not_listed (filter_folderIds filters) (the (pd_folderId projectDoc)))"

definition document_results ::
  "string \<Rightarrow> SearchFilters option \<Rightarrow> ProjectDocument \<times> Document \<Rightarrow> GlobalSearchResult list" where
  "document_results query filters row =
     (case row of (projectDoc, doc) \<Rightarrow>
        if excluded_by_documentIds filters projectDoc then []
        else if excluded_by_folderIds filters projectDoc then []
        else
          let textToMatch =
                join_truthy [pd_retrievalContext projectDoc, doc_summary doc,
                             Some (doc_filename doc)];
              score = textMatchScore query textToMatch
          in if score > 0 then
               [\<lparr>result_type = document_context,
                 folderId = or_undefined (pd_folderId projectDoc), folderName = None,
                 documentId = Some (pd_id projectDoc),
                 documentFilename = Some (doc_filename doc), annotationId = None,
                 matchedText =
                   or_else (pd_retrievalContext projectDoc)
                     (or_else (doc_summary doc) (doc_filename doc)),
                 highlightedText = None, note = None, category = None,
                 citationData = pd_citationData projectDoc,
                 similarityScore = score, relevanceLevel = getRelevanceLevel score,
                 result_startPosition = None\<rparr>]
             else [])"

definition excluded_by_categories :: "SearchFilters option \<Rightarrow> ProjectAnnotation \<Rightarrow> bool" where
  \<comment> \<open>\<open>filters?.categories && !filters.categories.includes(annotation.category)\<close>\<close>
  "excluded_by_categories filters ann = not_listed (filter_categories filters) (ann_category ann)"

definition annotation_results ::
  "string \<Rightarrow> SearchFilters option \<Rightarrow> ProjectAnnotation \<times> ProjectDocument \<times> Document \<Rightarrow>
   GlobalSearchResult list" where
  "annotation_results query filters row =
     (case row of (ann, projectDoc, doc) \<Rightarrow>
        if excluded_by_categories filters ann then []
        else if excluded_by_documentIds filters projectDoc then []
        else if excluded_by_folderIds filters projectDoc then []
        else
          let textToMatch =
                join_truthy [ann_searchableContent ann, Some (ann_highlightedText ann),
                             ann_note ann];
              score = textMatchScore query textToMatch
          in if score > 0 then
               [\<lparr>result_type = annotation,
                 folderId = or_undefined (pd_folderId projectDoc), folderName = None,
                 documentId = Some (pd_id projectDoc),
                 documentFilename = Some (doc_filename doc),
                 annotationId = Some (ann_id ann),
                 matchedText = or_else (ann_searchableContent ann) (ann_highlightedText ann),
                 highlightedText = Some (ann_highlightedText ann),
                 note = or_undefined (ann_note ann),
                 category = Some (ann_category ann),
                 citationData = pd_citationData projectDoc,
                 similarityScore = score, relevanceLevel = getRelevanceLevel score,
                 result_startPosition = Some (ann_startPosition ann)\<rparr>]
             else [])"

definition select_projectFolders :: "state \<Rightarrow> string \<Rightarrow> Folder list" where
  "select_projectFolders st projectId = filter (\<lambda>f. folder_projectId f = projectId) (folders st)"

definition select_projectDocs :: "state \<Rightarrow> string \<Rightarrow> (ProjectDocument \<times> Document) list" where
  \<comment> \<open>\<open>projectDocuments\<close> inner join \<open>documents\<close>, for one project\<close>
  "select_projectDocs st projectId =
     concat (map (\<lambda>pd. map (\<lambda>d. (pd, d)) (filter (\<lambda>d. pd_documentId pd = doc_id d) (documents st)))
                 (filter (\<lambda>pd. pd_projectId pd = projectId) (projectDocuments st)))"

definition select_allAnnotations ::
  "state \<Rightarrow> string \<Rightarrow> (ProjectAnnotation \<times> ProjectDocument \<times> Document) list" where
  \<comment> \<open>\<open>projectAnnotations\<close> inner join \<open>projectDocuments\<close> inner join \<open>documents\<close>, for one
      project\<close>
  "select_allAnnotations st projectId =
     concat (map (\<lambda>a.
        concat (map (\<lambda>pd. map (\<lambda>d. (a, pd, d)) (filter (\<lambda>d. pd_documentId pd = doc_id d) (documents st)))
                    (filter (\<lambda>pd. ann_projectDocumentId a = pd_id pd \<and> pd_projectId pd = projectId)
                            (projectDocuments st))))
        (projectAnnotations st))"

definition candidate_pool ::
  "state \<Rightarrow> Project \<Rightarrow> string \<Rightarrow> string \<Rightarrow> SearchFilters option \<Rightarrow> GlobalSearchResult list" where
  \<comment> \<open>the array \<open>results\<close> after the four loops, before it is sorted\<close>
  "candidate_pool st project projectId query filters =
     project_results query project
     @ concat (map (folder_results query filters) (select_projectFolders st projectId))
     @ concat (map (document_results query filters) (select_projectDocs st projectId))
     @ concat (map (annotation_results query filters) (select_allAnnotations st projectId))"

definition sort_by_score :: "GlobalSearchResult list \<Rightarrow> GlobalSearchResult list" where
  \<comment> \<open>\<open>results.sort((a, b) => b.similarityScore - a.similarityScore)\<close>: descending and
      stable\<close>
  "sort_by_score rs = sort_key (\<lambda>r. - similarityScore r) rs"

definition globalSearch ::
  "state \<Rightarrow> string \<Rightarrow> string \<Rightarrow> SearchFilters option \<Rightarrow> int \<Rightarrow> SearchResponse" where
  "globalSearch st projectId query filters limit =
     (case find (\<lambda>p. project_id p = projectId) (projects st) of
        None \<Rightarrow> \<lparr>results = [], totalResults = 0\<rparr>
      | Some project \<Rightarrow>
          let pool = candidate_pool st project projectId query filters;
              limitedResults = js_slice (sort_by_score pool) 0 limit
          in \<lparr>results = limitedResults, totalResults = length pool\<rparr>)"

definition globalSearch_default :: "state \<Rightarrow> string \<Rightarrow> string \<Rightarrow> SearchFilters option \<Rightarrow> SearchResponse" where
  \<comment> \<open>the call without \<open>limit\<close>, which defaults to 20\<close>
  "globalSearch_default st projectId query filters = globalSearch st projectId query filters 20"

section \<open>Search within one project document (\<open>searchProjectDocument\<close>)\<close>

datatype error = Error string

record RankedChunk =
  rc_text :: string
  rc_startPosition :: int
  rc_endPosition :: int
  rc_similarity :: rat

definition sort_by_similarity :: "RankedChunk list \<Rightarrow> RankedChunk list" where
  \<comment> \<open>\<open>.sort((a, b) => b.similarity - a.similarity)\<close>\<close>
  "sort_by_similarity rs = sort_key (\<lambda>r. - rc_similarity r) rs"

definition rank_embedded ::
  "(embedding_vector \<Rightarrow> embedding_vector \<Rightarrow> rat) \<Rightarrow> Chunk list \<Rightarrow> embedding_vector \<Rightarrow> RankedChunk list" where
  \<comment> \<open>\<open>.filter((c) => c.embedding).map(...).sort(...).slice(0, 5)\<close>; a stored vector, even
      an empty array, is truthy\<close>
  "rank_embedded cosineSimilarity docChunks queryEmbedding =
     take 5 (sort_by_similarity
       (map (\<lambda>chunk. \<lparr>rc_text = chunk_text chunk, rc_startPosition = chunk_startPosition chunk,
                       rc_endPosition = chunk_endPosition chunk,
                       rc_similarity = cosineSimilarity (the (chunk_embedding chunk)) queryEmbedding\<rparr>)
            (filter (\<lambda>c. chunk_embedding c \<noteq> None) docChunks)))"

text \<open>
  \<open>getEmbedding\<close>, \<open>cosineSimilarity\<close> and \<open>searchDocument\<close> come from \<open>./openai\<close>, which is
  not among the sources: they are parameters. A \<open>throw\<close> is the \<open>Inl\<close> of the result.
\<close>

definition searchProjectDocument ::
  "(string \<Rightarrow> embedding_vector) \<Rightarrow> (embedding_vector \<Rightarrow> embedding_vector \<Rightarrow> rat) \<Rightarrow>
   (string \<Rightarrow> string \<Rightarrow> RankedChunk list \<Rightarrow> 'r list) \<Rightarrow>
   state \<Rightarrow> string \<Rightarrow> string \<Rightarrow> error + ('r list \<times> state)" where
  "searchProjectDocument provider cosineSimilarity searchDocument st projectDocId query =
     (case find (\<lambda>pd. pd_id pd = projectDocId) (projectDocuments st) of
        None \<Rightarrow> Inl (Error ''Project document not found'')
      | Some projectDoc \<Rightarrow>
          (case find (\<lambda>d. doc_id d = pd_documentId projectDoc) (documents st) of
             None \<Rightarrow> Inl (Error ''Document not found'')
           | Some doc \<Rightarrow>
               let project = find (\<lambda>p. project_id p = pd_projectId projectDoc) (projects st);
                   docChunks = getChunksForDocument (doc_id doc) st
               in if length docChunks = 0 then Inr ([], st)
                  else
                    (case getEmbedding_call provider query st of
                       (queryEmbedding, st1) \<Rightarrow>
                         let rankedChunks = rank_embedded cosineSimilarity docChunks queryEmbedding
                         in if length rankedChunks = 0 then Inr ([], st1)
                            else
                              let researchContext =
                                    or_else (case project of None \<Rightarrow> None | Some p \<Rightarrow> project_thesis p)
                                      (or_else (doc_userIntent doc) [])
                              in Inr (searchDocument query researchContext rankedChunks, st1))))"

section \<open>The garbled-text detector (\<open>isGarbledText\<close>)\<close>

definition is_alpha :: "char \<Rightarrow> bool" where
  \<comment> \<open>\<open>[a-zA-Z]\<close>\<close>
  "is_alpha c = (let n = (of_char c :: nat) in (65 \<le> n \<and> n \<le> 90) \<or> (97 \<le> n \<and> n \<le> 122))"

definition is_bracket :: "char \<Rightarrow> bool" where
  \<comment> \<open>the class of the \<open>brackets\<close> pattern: the nineteen characters
      \<open>[ ] { } \ | ^ ~ ` @ # $ % & * + = < >\<close>\<close>
  "is_bracket c =
     (c \<in> set [CHR ''['', CHR '']'', CHR ''{'', CHR ''}'', CHR 0x5C, CHR ''|'', CHR ''^'',
               CHR ''~'', CHR 0x60, CHR ''@'', CHR ''#'', CHR ''$'', CHR ''%'', CHR ''&'',
               CHR ''*'', CHR ''+'', CHR ''='', CHR ''<'', CHR ''>''])"

function match_words :: "string \<Rightarrow> string list" where
  \<comment> \<open>\<open>s.match(/[a-zA-Z]{3,}/g) || []\<close>: at each position the greedy pattern takes the longest
      run of letters; a run of three or more is a match and the scan goes on behind it,
      otherwise the scan moves one character on.\<close>
  "match_words s =
     (if s = [] then []
      else
        let m = takeWhile is_alpha s
        in if length m \<ge> 3 then m # match_words (drop (length m) s)
           else match_words (tl s))"
  by pat_completeness auto
termination
proof (relation "measure length")
  show "wf (measure length)" by simp
next
  fix s :: string and m
  assume "s \<noteq> []" and "m = takeWhile is_alpha s" and "3 \<le> length m"
  then show "(drop (length m) s, s) \<in> measure length"
    by (cases s) auto
next
  fix s :: string and m
  assume "s \<noteq> []"
  then show "(tl s, s) \<in> measure length"
    by (cases s) auto
qed

declare match_words.simps [simp del]

text \<open>
  The three ratios of \<open>isGarbledText\<close> are quotients of counts of at most 2000. They are
  kept as exact quotients: a quotient with a denominator of at most 2000 lies on the same
  side of \<open>0.4\<close>, \<open>0.1\<close> and \<open>3\<close> as its double.
\<close>

definition isGarbledText :: "string \<Rightarrow> bool" where
  "isGarbledText txt =
     (if txt = [] \<or> length txt < 100 then False
      else
        let sample = js_slice txt 0 2000;
            words = match_words sample;
            brackets = filter is_bracket sample;
            wordChars = length (concat words);
            totalChars = length (filter (\<lambda>c. \<not> is_ws c) sample);
            wordRatio = (if totalChars > 0 then of_nat wordChars / of_nat totalChars else (0 :: rat));
            bracketRatio =
              (if totalChars > 0 then of_nat (length brackets) / of_nat totalChars else (0 :: rat));
            avgWordLen =
              (if length words > 0 then of_nat wordChars / of_nat (length words) else (0 :: rat))
        in wordRatio < 4 / 10 \<or> bracketRatio > 1 / 10 \<or> (length words > 10 \<and> avgWordLen < 3))"

text \<open>
  The claim's words for the matches of the pattern: the maximal runs of alphabetic
  characters of a string, in order (those of length three or more are the words).
\<close>

function alpha_runs :: "string \<Rightarrow> string list" where
  "alpha_runs s =
     (if s = [] then []
      else if is_alpha (hd s) then takeWhile is_alpha s # alpha_runs (dropWhile is_alpha s)
      else alpha_runs (tl s))"
  by pat_completeness auto
termination
proof (relation "measure length")
  show "wf (measure length)" by simp
next
  fix s :: string
  assume "s \<noteq> []" and "is_alpha (hd s)"
  then show "(dropWhile is_alpha s, s) \<in> measure length"
    using dropWhile_shorter[of s is_alpha] by simp
next
  fix s :: string
  assume "s \<noteq> []"
  then show "(tl s, s) \<in> measure length"
    by (cases s) auto
qed

declare alpha_runs.simps [simp del]

section \<open>Setting the intent: embedding fill, ranking and selection\<close>

datatype json = JUndefined | JNull | JBool bool | JNumber rat | JString string

datatype ThoroughnessLevel = quick | standard | thorough | exhaustive

fun level_name :: "ThoroughnessLevel \<Rightarrow> string" where
  "level_name quick = ''quick''"
| "level_name standard = ''standard''"
| "level_name thorough = ''thorough''"
| "level_name exhaustive = ''exhaustive''"

definition validLevels :: "ThoroughnessLevel list" where
  "validLevels = [quick, standard, thorough, exhaustive]"

definition validate_level :: "json \<Rightarrow> ThoroughnessLevel" where
  \<comment> \<open>\<open>const { thoroughness = 'standard' } = req.body\<close> and
      \<open>validLevels.includes(thoroughness) ? thoroughness : 'standard'\<close>\<close>
  "validate_level body_thoroughness =
     (let thoroughness =
            (if body_thoroughness = JUndefined then JString ''standard'' else body_thoroughness)
      in case find (\<lambda>l. JString (level_name l) = thoroughness) validLevels of
           Some level \<Rightarrow> level
         | None \<Rightarrow> standard)"

definition fill_chunk :: "(string \<Rightarrow> embedding_vector) \<Rightarrow> Chunk \<Rightarrow> state \<Rightarrow> Chunk \<times> state" where
  \<comment> \<open>the callback of \<open>chunks.map\<close>\<close>
  "fill_chunk provider chunk st =
     (case chunk_embedding chunk of
        None \<Rightarrow>
          (case getEmbedding_call provider (chunk_text chunk) st of
             (embedding, st1) \<Rightarrow>
               (chunk\<lparr>chunk_embedding := Some embedding\<rparr>,
                updateChunkEmbedding (chunk_id chunk) embedding st1))
      | Some v \<Rightarrow> (chunk, st))"

text \<open>
  \<open>Promise.all\<close> resolves once every callback has finished. The callbacks are run here one
  after the other in chunk order; the provider is called in that order in the source too,
  and the writes of different chunks go to different rows.
\<close>

fun fill_embeddings :: "(string \<Rightarrow> embedding_vector) \<Rightarrow> Chunk list \<Rightarrow> state \<Rightarrow> Chunk list \<times> state" where
  "fill_embeddings provider [] st = ([], st)"
| "fill_embeddings provider (chunk # rest) st =
     (case fill_chunk provider chunk st of
        (chunk', st1) \<Rightarrow>
          (case fill_embeddings provider rest st1 of
             (rest', st2) \<Rightarrow> (chunk' # rest', st2)))"

record RankedCandidate =
  rk_chunk :: Chunk
  rk_similarity :: rat

definition rank_for_intent ::
  "(embedding_vector \<Rightarrow> embedding_vector \<Rightarrow> rat) \<Rightarrow> Chunk list \<Rightarrow> embedding_vector \<Rightarrow>
   RankedCandidate list" where
  "rank_for_intent cosineSimilarity chunksWithEmbeddings intentEmbedding =
     sort_key (\<lambda>r. - rk_similarity r)
       (map (\<lambda>chunk. \<lparr>rk_chunk = chunk,
                       rk_similarity = cosineSimilarity (the (chunk_embedding chunk)) intentEmbedding\<rparr>)
            chunksWithEmbeddings)"

text \<open>
  The similarities come from \<open>cosineSimilarity\<close>, which is not among the sources: it is a
  parameter, and a similarity is the number its double stands for. The two floors are the
  doubles of the literals \<open>0.1\<close> and \<open>0.3\<close>.
\<close>

definition minSimilarity_of :: "ThoroughnessLevel \<Rightarrow> rat" where
  \<comment> \<open>\<open>level === 'exhaustive' ? 0.1 : 0.3\<close>\<close>
  "minSimilarity_of level = (if level = exhaustive then to_double (1 / 10) else to_double (3 / 10))"

definition slice_upto :: "'a list \<Rightarrow> enat \<Rightarrow> 'a list" where
  \<comment> \<open>\<open>.slice(0, maxChunks)\<close> for a count that may be unbounded\<close>
  "slice_upto xs m = (case m of enat n \<Rightarrow> take n xs | \<infinity> \<Rightarrow> xs)"

text \<open>
  \<open>getMaxChunksForLevel\<close> comes from \<open>./openai\<close>, which is not among the sources: the
  table of maximum chunk counts is a parameter.
\<close>

definition select_top ::
  "(ThoroughnessLevel \<Rightarrow> enat) \<Rightarrow> ThoroughnessLevel \<Rightarrow> RankedCandidate list \<Rightarrow> RankedCandidate list" where
  \<comment> \<open>\<open>rankedChunks.filter(({ similarity }) => similarity >= minSimilarity).slice(0, maxChunks)\<close>\<close>
  "select_top getMaxChunksForLevel level rankedChunks =
     (let maxChunks = getMaxChunksForLevel level;
          minSimilarity = minSimilarity_of level
      in slice_upto (filter (\<lambda>r. rk_similarity r \<ge> minSimilarity) rankedChunks) maxChunks)"

record TopChunk =
  top_text :: string
  top_startPosition :: int
  top_id :: string

definition updateDocument_userIntent :: "string \<Rightarrow> string \<Rightarrow> state \<Rightarrow> state" where
  \<comment> \<open>Modelled from the spec: \<open>storage.updateDocument(id, { userIntent })\<close> (the persistence
      layer is not among the sources) stores the intent on the document of that id.\<close>
  "updateDocument_userIntent docId intent st =
     st\<lparr>documents := map (\<lambda>d. if doc_id d = docId then d\<lparr>doc_userIntent := Some intent\<rparr> else d)
                         (documents st)\<rparr>"

text \<open>
  The handler of \<open>POST /api/documents/:id/set-intent\<close> up to \<open>topChunks\<close>, the input of
  the annotation pipeline. An answer with an HTTP status is the \<open>Inl\<close> of the result.
\<close>

definition set_intent_topChunks ::
  "(string \<Rightarrow> embedding_vector) \<Rightarrow> (embedding_vector \<Rightarrow> embedding_vector \<Rightarrow> rat) \<Rightarrow>
   (ThoroughnessLevel \<Rightarrow> enat) \<Rightarrow> state \<Rightarrow> string \<Rightarrow> json \<Rightarrow> json \<Rightarrow>
   ((nat \<times> string) + TopChunk list) \<times> state" where
  "set_intent_topChunks provider cosineSimilarity getMaxChunksForLevel st docId intent body_thoroughness =
     (case intent of
        JString i \<Rightarrow>
          if i = [] then (Inl (400, ''Intent is required''), st)
          else
            let level = validate_level body_thoroughness
            in (case find (\<lambda>d. doc_id d = docId) (documents st) of
                  None \<Rightarrow> (Inl (404, ''Document not found''), st)
                | Some doc \<Rightarrow>
                    let st1 = updateDocument_userIntent (doc_id doc) i st;
                        docChunks = getChunksForDocument (doc_id doc) st1
                    in if length docChunks = 0
                       then (Inl (400, ''No text chunks found for analysis''), st1)
                       else
                         (case getEmbedding_call provider i st1 of
                            (intentEmbedding, st2) \<Rightarrow>
                              (case fill_embeddings provider docChunks st2 of
                                 (chunksWithEmbeddings, st3) \<Rightarrow>
                                   let rankedChunks =
                                         rank_for_intent cosineSimilarity chunksWithEmbeddings
                                           intentEmbedding;
                                       topChunks =
                                         map (\<lambda>r. \<lparr>top_text = chunk_text (rk_chunk r),
                                                    top_startPosition = chunk_startPosition (rk_chunk r),
                                                    top_id = chunk_id (rk_chunk r)\<rparr>)
                                           (select_top getMaxChunksForLevel level rankedChunks)
                                   in (Inr topChunks, st3))))
      | _ \<Rightarrow> (Inl (400, ''Intent is required''), st))"

section \<open>Definitions used to state the properties\<close>

definition project_text :: "Project \<Rightarrow> string" where
  \<comment> \<open>the \<open>textToMatch\<close> of the project itself\<close>
  "project_text project =
     join_truthy [project_contextSummary project, project_thesis project, Some (project_name project)]"

definition without_folderIds :: "SearchFilters option \<Rightarrow> SearchFilters option" where
  \<comment> \<open>the same filters with no \<open>folderIds\<close> given\<close>
  "without_folderIds filters = map_option (\<lambda>f. f\<lparr>folderIds := None\<rparr>) filters"

definition descending :: "RankedCandidate list \<Rightarrow> bool" where
  \<comment> \<open>a ranking in non-increasing order of similarity\<close>
  "descending rs = sorted_wrt (\<lambda>a b. rk_similarity b \<le> rk_similarity a) rs"

definition with_embedding :: "(string \<Rightarrow> embedding_vector) \<Rightarrow> Chunk \<Rightarrow> Chunk" where
  \<comment> \<open>the chunk with its stored vector if it has one, and else with the provider's vector
      for its text\<close>
  "with_embedding provider c =
     (case chunk_embedding c of
        None \<Rightarrow> c\<lparr>chunk_embedding := Some (provider (chunk_text c))\<rparr>
      | Some v \<Rightarrow> c)"

definition persist :: "(string \<Rightarrow> embedding_vector) \<Rightarrow> Chunk \<Rightarrow> Chunk \<Rightarrow> Chunk" where
  \<comment> \<open>what the fill of chunk \<open>c\<close> does to the stored chunk \<open>s\<close>\<close>
  "persist provider c s =
     (if chunk_embedding c = None \<and> chunk_id s = chunk_id c
      then s\<lparr>chunk_embedding := Some (provider (chunk_text c))\<rparr> else s)"

definition spec_maxChunks :: "ThoroughnessLevel \<Rightarrow> enat" where
  \<comment> \<open>Modelled from the spec: the maximum chunk counts of the thoroughness table
      (\<open>getMaxChunksForLevel\<close> is in \<open>./openai\<close>, not among the sources).\<close>
  "spec_maxChunks level =
     (case level of quick \<Rightarrow> 10 | standard \<Rightarrow> 30 | thorough \<Rightarrow> 100 | exhaustive \<Rightarrow> \<infinity>)"

definition near_target :: "int \<Rightarrow> nat \<Rightarrow> int \<Rightarrow> bool" where
  \<comment> \<open>a sentence end found by \<open>findSentenceEnd\<close> in a text of \<open>n\<close> characters\<close>
  "near_target target n b = (target - 48 \<le> b \<and> b \<le> target + 52 \<and> 0 < b \<and> b \<le> int n)"

definition chunk_end :: "string \<Rightarrow> int \<Rightarrow> int \<Rightarrow> int option" where
  \<comment> \<open>the value of \<open>end\<close> in one pass of the loop of \<open>chunkText\<close>\<close>
  "chunk_end t chunkSize start =
     (if start + chunkSize < int (length t) then
        findSentenceEnd (js_slice t start (min (start + chunkSize + 100) (int (length t)))) chunkSize
          \<bind> (\<lambda>sentenceEnd. Some (if sentenceEnd > 0 then start + sentenceEnd else start + chunkSize))
      else Some (start + chunkSize))"

definition chunk_ok :: "string \<Rightarrow> int \<Rightarrow> int \<Rightarrow> TextChunkData \<Rightarrow> bool" where
  \<comment> \<open>what holds of every chunk emitted from cursor \<open>from\<close> on\<close>
  "chunk_ok t chunkSize from c =
     (from \<le> startPosition c \<and> startPosition c < endPosition c \<and>
      endPosition c \<le> max (int (length t)) (startPosition c + chunkSize) \<and>
      text c = js_slice t (startPosition c) (endPosition c) \<and> trim (text c) \<noteq> [])"

definition no_terminator :: "string \<Rightarrow> bool" where
  \<comment> \<open>a text without the three characters that start a sentence terminator\<close>
  "no_terminator t = (CHR ''.'' \<notin> set t \<and> CHR ''!'' \<notin> set t \<and> CHR ''?'' \<notin> set t)"

subsection \<open>Example data\<close>

definition no_state :: state where
  "no_state = \<lparr>projects = [], folders = [], projectDocuments = [], documents = [],
               projectAnnotations = [], chunks = [], provider_calls = []\<rparr>"

definition thesis_project :: Project where
  "thesis_project = \<lparr>project_id = ''p1'', project_name = ''Pets'',
                    project_contextSummary = None, project_thesis = Some ''cats and dogs''\<rparr>"

definition named_project :: Project where
  "named_project = \<lparr>project_id = ''p1'', project_name = ''cat'',
                    project_contextSummary = None, project_thesis = None\<rparr>"

definition named_project_state :: state where
  "named_project_state =
     \<lparr>projects = [named_project], folders = [], projectDocuments = [], documents = [],
      projectAnnotations = [], chunks = [], provider_calls = []\<rparr>"

definition thesis_project_state :: state where
  "thesis_project_state =
     \<lparr>projects = [thesis_project], folders = [], projectDocuments = [], documents = [],
      projectAnnotations = [], chunks = [], provider_calls = []\<rparr>"

definition unfiled_pd :: ProjectDocument where
  "unfiled_pd = \<lparr>pd_id = ''pd1'', pd_projectId = ''p1'', pd_documentId = ''d1'',
                  pd_folderId = None, pd_retrievalContext = None, pd_citationData = None\<rparr>"

definition filed_pd :: ProjectDocument where
  "filed_pd = \<lparr>pd_id = ''pd2'', pd_projectId = ''p1'', pd_documentId = ''d1'',
                pd_folderId = Some ''f2'', pd_retrievalContext = None, pd_citationData = None\<rparr>"

definition cats_doc :: Document where
  "cats_doc = \<lparr>doc_id = ''d1'', doc_filename = ''cats.txt'', doc_fullText = ''cats purr'',
                doc_summary = None, doc_userIntent = None\<rparr>"

definition cats_ann :: ProjectAnnotation where
  "cats_ann = \<lparr>ann_id = ''a1'', ann_projectDocumentId = ''pd1'', ann_category = ''key_quote'',
                ann_searchableContent = None, ann_highlightedText = ''cats purr'',
                ann_note = None, ann_startPosition = 0\<rparr>"

definition library_state :: state where
  "library_state =
     \<lparr>projects = [thesis_project], folders = [],
      projectDocuments = [unfiled_pd, filed_pd], documents = [cats_doc],
      projectAnnotations = [cats_ann], chunks = [], provider_calls = []\<rparr>"

definition f1_only :: "SearchFilters option" where
  "f1_only = Some \<lparr>categories = None, folderIds = Some [''f1''], documentIds = None\<rparr>"

definition candidate :: "string \<Rightarrow> rat \<Rightarrow> RankedCandidate" where
  "candidate cid sim =
     \<lparr>rk_chunk = \<lparr>chunk_id = cid, chunk_documentId = ''d1'', chunk_text = cid,
                   chunk_startPosition = 0, chunk_endPosition = 1, chunk_embedding = None\<rparr>,
      rk_similarity = sim\<rparr>"

definition embedded_chunk :: Chunk where
  "embedded_chunk = \<lparr>chunk_id = ''c0'', chunk_documentId = ''d1'', chunk_text = ''dogs bark'',
                      chunk_startPosition = 0, chunk_endPosition = 9, chunk_embedding = Some [1, 0]\<rparr>"

definition unembedded_chunk :: Chunk where
  "unembedded_chunk = \<lparr>chunk_id = ''c1'', chunk_documentId = ''d1'', chunk_text = ''cats purr'',
                      chunk_startPosition = 9, chunk_endPosition = 18, chunk_embedding = None\<rparr>"

definition mixed_state :: state where
  "mixed_state = library_state\<lparr>chunks := [embedded_chunk, unembedded_chunk]\<rparr>"

definition const_provider :: "string \<Rightarrow> embedding_vector" where
  "const_provider t = [0, 1]"

definition const_cosine :: "embedding_vector \<Rightarrow> embedding_vector \<Rightarrow> rat" where
  "const_cosine a b = (if a = b then 1 else 0)"

definition twin_chunk :: Chunk where
  "twin_chunk = \<lparr>chunk_id = ''c2'', chunk_documentId = ''d1'', chunk_text = ''cats nap'',
                  chunk_startPosition = 18, chunk_endPosition = 26, chunk_embedding = Some [0, 1]\<rparr>"

definition twin_state :: state where
  "twin_state = library_state\<lparr>chunks := [unembedded_chunk, twin_chunk]\<rparr>"

definition one_chunk :: "ThoroughnessLevel \<Rightarrow> enat" where
  "one_chunk level = 1"

definition no_quotes :: "string \<Rightarrow> string \<Rightarrow> RankedChunk list \<Rightarrow> unit list" where
  "no_quotes query researchContext rankedChunks = map (\<lambda>c. ()) rankedChunks"

definition after_set_intent :: state where
  "after_set_intent =
     mixed_state\<lparr>documents := [cats_doc\<lparr>doc_userIntent := Some ''cats''\<rparr>],
                  chunks := [embedded_chunk, unembedded_chunk\<lparr>chunk_embedding := Some [0, 1]\<rparr>],
                  provider_calls := [''cats'', ''cats purr'']\<rparr>"

section \<open>Properties of the chunker\<close>

text \<open>
  C1. Every chunk of \<open>chunkText(text)\<close> with the default parameters is claimed to satisfy
  \<open>0 \<le> startPosition < endPosition \<le> len(text)\<close>. The loop records the tentative
  \<open>end = start + chunkSize\<close> as \<open>endPosition\<close> without clamping it to the length of the text:
  for the five-character text \<open>hello\<close> the only chunk holds the whole text and has
  \<open>endPosition = 500\<close>, beyond the end of the text.
\<close>

theorem chunkText_endPosition_beyond_text:
  "chunkText_default ''hello'' =
     Some [\<lparr>text = ''hello'', startPosition = 0, endPosition = 500\<rparr>]
   \<and> int (length ''hello'') < 500"
  by code_simp

lemma findSentenceEnd_abcdef:
  "findSentenceEnd (js_slice ''abcdef'' 0 (min (0 + 2 + 100) (int (length ''abcdef'')))) 2 = Some (- 1)"
  by code_simp

lemma slice_trim_abcdef: "js_slice ''abcdef'' 0 2 = ''ab''" "trim ''ab'' = ''ab''"
  by code_simp+

lemma chunk_loop_body_stuck:
  "(if (0::int) < int (length ''abcdef'')
      then (if 0 + 2 < int (length ''abcdef'')
            then findSentenceEnd
                  (js_slice ''abcdef'' 0 (min (0 + 2 + 100) (int (length ''abcdef'')))) 2 \<bind>
                 (\<lambda>sentenceEnd. Some (if 0 < sentenceEnd then 0 + sentenceEnd else 0 + 2))
            else Some (0 + 2)) \<bind>
           (\<lambda>end'.
               let chunkText = js_slice ''abcdef'' 0 end';
                   chunks' = if trim chunkText \<noteq> []
                     then chs @ [\<lparr>text = chunkText, startPosition = 0, endPosition = end'\<rparr>]
                     else chs;
                   start' = end' - 2
               in if int (length ''abcdef'') - 2 \<le> start' then Some chunks'
                  else f ''abcdef'' 2 2 start' chunks')
      else Some chs) =
   f ''abcdef'' 2 2 0 (chs @ [\<lparr>text = ''ab'', startPosition = 0, endPosition = 2\<rparr>])"
  using findSentenceEnd_abcdef slice_trim_abcdef by (simp add: Let_def)

text \<open>
  No run of the loop on \<open>abcdef\<close> with \<open>chunkSize = overlap = 2\<close> that starts at cursor
  \<open>0\<close> returns: each pass appends the chunk \<open>ab\<close> and puts the cursor back to \<open>0\<close>.
\<close>

lemma chunk_loop_stuck:
  assumes "chunk_loop t cs ov st chs = Some y"
  shows "\<not> (t = ''abcdef'' \<and> cs = 2 \<and> ov = 2 \<and> st = 0)"
proof (rule chunk_loop.raw_induct
    [where P = "\<lambda>t cs ov st chs y. \<not> (t = ''abcdef'' \<and> cs = 2 \<and> ov = 2 \<and> st = 0)", OF _ assms])
  fix f :: "string \<Rightarrow> int \<Rightarrow> int \<Rightarrow> int \<Rightarrow> TextChunkData list \<Rightarrow> TextChunkData list option"
  fix t cs ov st chs y
  assume IH: "\<And>t cs ov st chs y. f t cs ov st chs = Some y \<Longrightarrow>
    \<not> (t = ''abcdef'' \<and> cs = 2 \<and> ov = 2 \<and> st = 0)"
  assume body: "(if st < int (length t)
      then (if st + cs < int (length t)
            then findSentenceEnd
                  (js_slice t st (min (st + cs + 100) (int (length t)))) cs \<bind>
                 (\<lambda>sentenceEnd. Some (if 0 < sentenceEnd then st + sentenceEnd else st + cs))
            else Some (st + cs)) \<bind>
           (\<lambda>end'.
               let chunkText = js_slice t st end';
                   chunks' = if trim chunkText \<noteq> []
                     then chs @ [\<lparr>text = chunkText, startPosition = st, endPosition = end'\<rparr>]
                     else chs;
                   start' = end' - ov
               in if int (length t) - ov \<le> start' then Some chunks'
                  else f t cs ov start' chunks')
      else Some chs) = Some y"
  show "\<not> (t = ''abcdef'' \<and> cs = 2 \<and> ov = 2 \<and> st = 0)"
  proof
    assume a: "t = ''abcdef'' \<and> cs = 2 \<and> ov = 2 \<and> st = 0"
    have "f ''abcdef'' 2 2 0 (chs @ [\<lparr>text = ''ab'', startPosition = 0, endPosition = 2\<rparr>]) = Some y"
      using body a unfolding chunk_loop_body_stuck[of chs f, symmetric] by blast
    then show False using IH by blast
  qed
qed

text \<open>
  C2. With \<open>overlap \<ge> chunkSize\<close> the chunker is claimed to reject or clamp the parameters
  and to terminate. It does neither: \<open>chunkText("abcdef", 2, 2)\<close> never returns (the value
  \<open>None\<close> of the partial function).
\<close>

theorem chunkText_overlap_eq_chunkSize_diverges:
  "chunkText ''abcdef'' 2 2 = None"
proof (cases "chunkText ''abcdef'' 2 2")
  case None
  then show ?thesis .
next
  case (Some y)
  then have "chunk_loop ''abcdef'' 2 2 0 [] = Some y"
    by (simp add: chunkText_def)
  from chunk_loop_stuck[OF this] show ?thesis by simp
qed

lemma js_slice_whole: "int (length s) \<le> e \<Longrightarrow> js_slice s 0 e = s"
  by (simp add: js_slice_def Let_def min_def)

lemma chunkText_short:
  assumes "int (length t) < chunkSize"
  shows "chunkText t chunkSize overlap =
     Some (if trim t = [] then []
           else [\<lparr>text = t, startPosition = 0, endPosition = chunkSize\<rparr>])"
proof (cases "t = []")
  case True
  then show ?thesis
    by (simp add: chunkText_def chunk_loop.simps trim_def)
next
  case False
  have sl: "js_slice t 0 chunkSize = t"
    using assms by (simp add: js_slice_whole)
  show ?thesis
    using assms False
    by (subst chunkText_def, subst chunk_loop.simps) (simp add: sl)
qed

text \<open>
  C4 (as amended). For every text strictly shorter than \<open>chunkSize\<close> and every \<open>overlap\<close>,
  \<open>chunkText\<close> returns: no chunk when the text is blank after trimming (in particular when
  it is empty), and otherwise exactly one chunk, which holds the whole text and has
  \<open>startPosition = 0\<close>.
\<close>

theorem chunkText_short_text:
  assumes "int (length t) < chunkSize"
  shows "\<exists>e. chunkText t chunkSize overlap =
     Some (if trim t = [] then []
           else [\<lparr>text = t, startPosition = 0, endPosition = e\<rparr>])"
  using chunkText_short[OF assms] by blast

theorem chunkText_short_text_witness:
  "int (length ''hello'') < 500 \<and> trim ''hello'' \<noteq> [] \<and>
   (\<exists>e. chunkText ''hello'' 500 50 =
      Some [\<lparr>text = ''hello'', startPosition = 0, endPosition = e\<rparr>])"
proof -
  have h: "int (length ''hello'') < 500" by simp
  have t: "trim ''hello'' \<noteq> []" by code_simp
  from chunkText_short_text[OF h, of 50] t show ?thesis by simp
qed

text \<open>
  The claim as stated fails for a text that is not empty but blank: the one-space text
  is shorter than \<open>chunkSize = 500\<close> and \<open>chunkText\<close> returns no chunk for it.
\<close>

theorem chunkText_short_blank_counterexample:
  "'' '' \<noteq> [] \<and> int (length '' '') < 500 \<and> chunkText '' '' 500 50 = Some []"
  by code_simp

subsection \<open>Termination and the positions that do hold\<close>

text \<open>
  \<open>findSentenceEnd\<close> always returns: every terminator is two characters long, so each
  search moves on. Its result is \<open>-1\<close> or a position between \<open>targetLength - 48\<close> and
  \<open>targetLength + 52\<close> inside the text it was given.
\<close>

lemma index_from_bounds:
  assumes "pat \<noteq> []"
  shows "index_from pat xs i = - 1 \<or>
         (int i \<le> index_from pat xs i \<and>
          index_from pat xs i + int (length pat) \<le> int i + int (length xs))"
proof (induction xs arbitrary: i)
  case Nil
  then show ?case using assms by simp
next
  case (Cons c cs)
  show ?case
  proof (cases "prefix pat (c # cs)")
    case True
    then have "length pat \<le> length (c # cs)" by (rule prefix_length_le)
    with True show ?thesis by simp
  next
    case False
    then show ?thesis using Cons.IH[of "Suc i"] by auto
  qed
qed

lemma indexOf_bounds:
  assumes "pat \<noteq> []"
  shows "indexOf s pat from = - 1 \<or>
         (from \<le> indexOf s pat from \<and> 0 \<le> indexOf s pat from \<and>
          indexOf s pat from + int (length pat) \<le> int (length s))"
proof -
  define k where "k = nat (min (max from 0) (int (length s)))"
  have r: "indexOf s pat from = index_from pat (drop k s) k"
    by (simp add: indexOf_def k_def Let_def)
  from index_from_bounds[OF assms, of "drop k s" k]
  show ?thesis
  proof
    assume "index_from pat (drop k s) k = - 1"
    then show ?thesis using r by simp
  next
    assume b: "int k \<le> index_from pat (drop k s) k \<and>
          index_from pat (drop k s) k + int (length pat) \<le> int k + int (length (drop k s))"
    have kl: "k \<le> length s" by (simp add: k_def)
    then have "int k + int (length (drop k s)) = int (length s)" by simp
    moreover have "from \<le> int k"
    proof (cases "from \<le> int (length s)")
      case True
      then show ?thesis by (simp add: k_def)
    next
      case False
      then have "k = length s" by (simp add: k_def)
      then have "drop k s = []" by simp
      then have "index_from pat (drop k s) k = - 1" using assms by simp
      with b show ?thesis by simp
    qed
    ultimately show ?thesis using b r by auto
  qed
qed

lemma ender_loop_returns:
  assumes "ender \<noteq> []"
    and "pos = - 1 \<or> (0 \<le> pos \<and> pos + int (length ender) \<le> int (length t))"
  shows "\<exists>b. ender_loop t ender target pos best = Some b \<and>
           (b = best \<or>
            (target - 50 + int (length ender) \<le> b \<and> b \<le> target + 50 + int (length ender) \<and>
             0 < b \<and> b \<le> int (length t)))"
  using assms(2)
proof (induction "nat (int (length t) - pos)" arbitrary: pos rule: less_induct)
  case less
  show ?case
  proof (cases "pos \<noteq> - 1 \<and> pos \<le> target + 50")
    case False
    then show ?thesis by (subst ender_loop.simps) auto
  next
    case True
    with less.prems have valid: "0 \<le> pos" "pos + int (length ender) \<le> int (length t)" by auto
    show ?thesis
    proof (cases "pos \<ge> target - 50")
      case hit: True
      have "0 < pos + int (length ender)" using valid(1) assms(1) by (cases ender) auto
      then show ?thesis using True hit valid by (subst ender_loop.simps) auto
    next
      case miss: False
      define pos' where "pos' = indexOf t ender (pos + 1)"
      from indexOf_bounds[OF assms(1), of t "pos + 1"]
      have nb: "pos' = - 1 \<or> (pos + 1 \<le> pos' \<and> 0 \<le> pos' \<and> pos' + int (length ender) \<le> int (length t))"
        by (simp add: pos'_def)
      have dec: "nat (int (length t) - pos') < nat (int (length t) - pos)" if "pos' \<noteq> - 1"
        using nb that valid by auto
      have "\<exists>b. ender_loop t ender target pos' best = Some b \<and>
           (b = best \<or>
            (target - 50 + int (length ender) \<le> b \<and> b \<le> target + 50 + int (length ender) \<and>
             0 < b \<and> b \<le> int (length t)))"
      proof (cases "pos' = - 1")
        case True
        then show ?thesis by (subst ender_loop.simps) simp
      next
        case False
        from less.hyps[OF dec[OF False]] nb False show ?thesis by blast
      qed
      then show ?thesis
        using True miss by (subst ender_loop.simps) (simp add: pos'_def)
    qed
  qed
qed

lemma indexOf_start:
  assumes "ender \<noteq> []"
  shows "indexOf t ender 0 = - 1 \<or>
         (0 \<le> indexOf t ender 0 \<and> indexOf t ender 0 + int (length ender) \<le> int (length t))"
  using indexOf_bounds[OF assms, of t 0] by auto

lemma enders_loop_returns:
  assumes "\<forall>e\<in>set es. length e = 2"
    and "best = - 1 \<or> near_target target (length t) best"
  shows "\<exists>b. enders_loop t target es best = Some b \<and> (b = - 1 \<or> near_target target (length t) b)"
  using assms
proof (induction es arbitrary: best)
  case Nil
  then show ?case by simp
next
  case (Cons e es)
  then have ne: "e \<noteq> []" and l2: "int (length e) = 2" by auto
  from ender_loop_returns[OF ne indexOf_start[OF ne], of t target best]
  obtain b where b: "ender_loop t e target (indexOf t e 0) best = Some b"
    and bb: "b = best \<or> (target - 50 + int (length e) \<le> b \<and> b \<le> target + 50 + int (length e) \<and>
             0 < b \<and> b \<le> int (length t))"
    by blast
  have "b = - 1 \<or> near_target target (length t) b"
    using bb Cons.prems(2) l2 by (auto simp: near_target_def)
  from Cons.IH[OF _ this] Cons.prems(1) b show ?case by simp
qed

lemma findSentenceEnd_returns:
  "\<exists>b. findSentenceEnd t target = Some b \<and> (b = - 1 \<or> near_target target (length t) b)"
  unfolding findSentenceEnd_def
  by (rule enders_loop_returns) (simp_all add: sentenceEnders_def)

lemma length_js_slice:
  assumes "0 \<le> b" and "b \<le> int (length s)"
  shows "int (length (js_slice s b e)) \<le> int (length s) - b"
  using assms by (auto simp: js_slice_def Let_def min_def max_def)

lemma chunk_end_returns:
  assumes "0 \<le> start" and "start < int (length t)" and "48 < chunkSize"
  shows "\<exists>e. chunk_end t chunkSize start = Some e \<and> start + chunkSize - 48 \<le> e \<and>
             e \<le> max (int (length t)) (start + chunkSize) \<and>
             (start + chunkSize < int (length t) \<longrightarrow> e \<le> int (length t))"
proof (cases "start + chunkSize < int (length t)")
  case False
  then show ?thesis by (simp add: chunk_end_def)
next
  case True
  define sl where "sl = js_slice t start (min (start + chunkSize + 100) (int (length t)))"
  from findSentenceEnd_returns[of sl chunkSize]
  obtain b where b: "findSentenceEnd sl chunkSize = Some b"
    and bb: "b = - 1 \<or> near_target chunkSize (length sl) b" by blast
  have ls: "int (length sl) \<le> int (length t) - start"
    unfolding sl_def using assms(1,2) by (intro length_js_slice) auto
  have e: "chunk_end t chunkSize start = Some (if b > 0 then start + b else start + chunkSize)"
    using True b by (simp add: chunk_end_def sl_def)
  from bb show ?thesis
  proof
    assume "b = - 1"
    then show ?thesis using e True by simp
  next
    assume "near_target chunkSize (length sl) b"
    then show ?thesis using e True ls by (auto simp: near_target_def)
  qed
qed

lemma chunk_loop_unfold:
  "chunk_loop t chunkSize overlap start acc =
     (if start < int (length t) then
        chunk_end t chunkSize start \<bind> (\<lambda>end'.
          let acc' =
            (if trim (js_slice t start end') \<noteq> []
             then acc @ [\<lparr>text = js_slice t start end', startPosition = start, endPosition = end'\<rparr>]
             else acc)
          in if end' - overlap \<ge> int (length t) - overlap then Some acc'
             else chunk_loop t chunkSize overlap (end' - overlap) acc')
      else Some acc)"
  by (subst chunk_loop.simps) (simp add: chunk_end_def Let_def)

text \<open>
  With \<open>0 \<le> overlap\<close> and \<open>overlap + 48 < chunkSize\<close> the cursor moves forward in every pass,
  so the loop returns. Every chunk has \<open>0 \<le> startPosition < endPosition\<close>, the chunks come
  in strictly increasing \<open>startPosition\<close>, and every chunk but the last ends inside the
  text; the last one ends at most \<open>chunkSize\<close> after its start.
\<close>

lemma chunk_loop_returns:
  assumes "0 \<le> overlap" and "overlap + 48 < chunkSize" and "0 \<le> start"
  shows "\<exists>out. chunk_loop t chunkSize overlap start acc = Some (acc @ out) \<and>
           (\<forall>c\<in>set out. chunk_ok t chunkSize start c) \<and>
           (\<forall>c\<in>set (butlast out). endPosition c \<le> int (length t)) \<and>
           sorted_wrt (\<lambda>a b. startPosition a < startPosition b) out"
  using assms(3)
proof (induction "nat (int (length t) - start)" arbitrary: start acc rule: less_induct)
  case less
  show ?case
  proof (cases "start < int (length t)")
    case False
    then have "chunk_loop t chunkSize overlap start acc = Some (acc @ [])"
      by (subst chunk_loop_unfold) simp
    then show ?thesis by (intro exI[of _ "[]"]) simp
  next
    case True
    from chunk_end_returns[OF less.prems True, of chunkSize] assms(1,2)
    obtain e where e: "chunk_end t chunkSize start = Some e"
      and lo: "start + chunkSize - 48 \<le> e"
      and hi: "e \<le> max (int (length t)) (start + chunkSize)"
      and inside: "start + chunkSize < int (length t) \<longrightarrow> e \<le> int (length t)"
      by auto
    have gt: "start < e" using lo assms(1,2) by simp
    define c0 where "c0 = \<lparr>text = js_slice t start e, startPosition = start, endPosition = e\<rparr>"
    define emitted where "emitted = (if trim (js_slice t start e) \<noteq> [] then [c0] else [])"
    have emitted_ok: "\<forall>c\<in>set emitted. chunk_ok t chunkSize start c"
      using gt hi by (auto simp: emitted_def c0_def chunk_ok_def)
    have step: "chunk_loop t chunkSize overlap start acc =
        (if e - overlap \<ge> int (length t) - overlap then Some (acc @ emitted)
         else chunk_loop t chunkSize overlap (e - overlap) (acc @ emitted))"
      using True e by (subst chunk_loop_unfold) (simp add: Let_def emitted_def c0_def)
    show ?thesis
    proof (cases "e - overlap \<ge> int (length t) - overlap")
      case stop: True
      have "chunk_loop t chunkSize overlap start acc = Some (acc @ emitted)"
        using step stop by simp
      moreover have "\<forall>c\<in>set (butlast emitted). endPosition c \<le> int (length t)"
        by (simp add: emitted_def)
      moreover have "sorted_wrt (\<lambda>a b. startPosition a < startPosition b) emitted"
        by (simp add: emitted_def)
      ultimately show ?thesis using emitted_ok by blast
    next
      case go: False
      define start' where "start' = e - overlap"
      have prog: "start < start'" using lo assms(2) by (simp add: start'_def)
      have ein: "e < int (length t)" using go by simp
      have "nat (int (length t) - start') < nat (int (length t) - start)"
        using prog True by simp
      moreover have "0 \<le> start'" using prog less.prems by simp
      ultimately obtain out where
        rec: "chunk_loop t chunkSize overlap start' (acc @ emitted) = Some ((acc @ emitted) @ out)"
        and ok: "\<forall>c\<in>set out. chunk_ok t chunkSize start' c"
        and bl: "\<forall>c\<in>set (butlast out). endPosition c \<le> int (length t)"
        and so: "sorted_wrt (\<lambda>a b. startPosition a < startPosition b) out"
        using less.hyps[of start' "acc @ emitted"] by blast
      have r: "chunk_loop t chunkSize overlap start acc = Some (acc @ (emitted @ out))"
        using step go rec by (simp add: start'_def)
      have ok': "\<forall>c\<in>set (emitted @ out). chunk_ok t chunkSize start c"
        using emitted_ok ok prog by (auto simp: chunk_ok_def)
      have bl': "\<forall>c\<in>set (butlast (emitted @ out)). endPosition c \<le> int (length t)"
      proof (cases "out = []")
        case True
        then show ?thesis by (simp add: emitted_def)
      next
        case False
        then have "butlast (emitted @ out) = emitted @ butlast out"
          by (simp add: butlast_append)
        moreover have "\<forall>c\<in>set emitted. endPosition c \<le> int (length t)"
          using ein by (simp add: emitted_def c0_def)
        ultimately show ?thesis using bl by auto
      qed
      have so': "sorted_wrt (\<lambda>a b. startPosition a < startPosition b) (emitted @ out)"
        using so ok prog by (auto simp: sorted_wrt_append emitted_def c0_def chunk_ok_def)
      from r ok' bl' so' show ?thesis by blast
    qed
  qed
qed

lemma chunkText_default_returns:
  "\<exists>out. chunkText_default t = Some out \<and>
     (\<forall>c\<in>set out. 0 \<le> startPosition c \<and> startPosition c < endPosition c \<and>
                   endPosition c \<le> max (int (length t)) (startPosition c + 500)) \<and>
     (\<forall>c\<in>set (butlast out). endPosition c \<le> int (length t)) \<and>
     sorted_wrt (\<lambda>a b. startPosition a < startPosition b) out"
proof -
  from chunk_loop_returns[of 50 500 0 t "[]"]
  obtain out where "chunk_loop t 500 50 0 [] = Some out"
    and "\<forall>c\<in>set out. chunk_ok t 500 0 c"
    and "\<forall>c\<in>set (butlast out). endPosition c \<le> int (length t)"
    and "sorted_wrt (\<lambda>a b. startPosition a < startPosition b) out"
    by auto
  then show ?thesis
    by (auto simp: chunkText_default_def chunkText_def chunk_ok_def)
qed

text \<open>
  A text of 1200 letters, chunked with the default parameters: three chunks whose starts
  are 450 apart, the last of which holds the 300 characters from position 900 and has
  \<open>endPosition = 1400\<close>.
\<close>

lemma set_js_slice: "set (js_slice xs b e) \<subseteq> set xs"
  by (auto simp: js_slice_def Let_def dest: in_set_takeD in_set_dropD)

lemma index_from_absent: "pat \<noteq> [] \<Longrightarrow> hd pat \<notin> set xs \<Longrightarrow> index_from pat xs i = - 1"
proof (induction xs arbitrary: i)
  case Nil
  then show ?case by simp
next
  case (Cons c cs)
  then have "\<not> prefix pat (c # cs)"
    by (cases pat) auto
  with Cons show ?case by simp
qed

lemma indexOf_absent: "pat \<noteq> [] \<Longrightarrow> hd pat \<notin> set s \<Longrightarrow> indexOf s pat from = - 1"
  unfolding indexOf_def Let_def
  by (rule index_from_absent) (auto dest: in_set_dropD)

lemma findSentenceEnd_no_terminator:
  assumes "no_terminator t"
  shows "findSentenceEnd t target = Some (- 1)"
proof -
  have "indexOf t e 0 = - 1" if "e \<in> set sentenceEnders" for e
    using that assms
    by (auto simp: sentenceEnders_def no_terminator_def intro!: indexOf_absent)
  moreover have "ender_loop t e target (- 1) b = Some b" for e b
    by (subst ender_loop.simps) simp
  ultimately show ?thesis
    by (simp add: findSentenceEnd_def sentenceEnders_def)
qed

lemma chunk_end_no_terminator:
  assumes "no_terminator t"
  shows "chunk_end t chunkSize start = Some (start + chunkSize)"
proof -
  have "no_terminator (js_slice t start (min (start + chunkSize + 100) (int (length t))))"
    using assms set_js_slice[of t start "min (start + chunkSize + 100) (int (length t))"]
    by (auto simp: no_terminator_def)
  from findSentenceEnd_no_terminator[OF this, of chunkSize] show ?thesis
    by (simp add: chunk_end_def)
qed

lemma js_slice_replicate:
  "0 \<le> b \<Longrightarrow> b \<le> e \<Longrightarrow>
   js_slice (replicate n x) b e = replicate (nat (min e (int n)) - nat b) x"
  by (auto simp: js_slice_def Let_def min_def)

lemma trim_replicate:
  assumes "\<not> is_ws x"
  shows "trim (replicate n x) = replicate n x"
proof -
  have "dropWhile is_ws (replicate n x) = replicate n x"
    using assms by (cases n) simp_all
  then show ?thesis by (simp add: trim_def)
qed

lemma chunkText_1200:
  "chunkText_default (replicate 1200 CHR ''a'') =
     Some [\<lparr>text = replicate 500 CHR ''a'', startPosition = 0, endPosition = 500\<rparr>,
           \<lparr>text = replicate 500 CHR ''a'', startPosition = 450, endPosition = 950\<rparr>,
           \<lparr>text = replicate 300 CHR ''a'', startPosition = 900, endPosition = 1400\<rparr>]"
proof -
  have nt: "no_terminator (replicate 1200 CHR ''a'')"
    by (auto simp: no_terminator_def)
  have ws: "\<not> is_ws CHR ''a''" by (simp add: is_ws_def)
  note ce = chunk_end_no_terminator[OF nt, of 500]
  show ?thesis
    unfolding chunkText_default_def chunkText_def
    apply (subst chunk_loop_unfold, simp add: ce js_slice_replicate trim_replicate[OF ws] Let_def)
    apply (subst chunk_loop_unfold, simp add: ce js_slice_replicate trim_replicate[OF ws] Let_def)
    apply (subst chunk_loop_unfold, simp add: ce js_slice_replicate trim_replicate[OF ws] Let_def)
    done
qed

section \<open>Properties of the lexical score\<close>

subsection \<open>Rounding to the nearest double\<close>

text \<open>
  For a positive number \<open>x\<close> the binade is the exponent of the power of two at or below
  \<open>x\<close>, the rounding moves \<open>x\<close> by at most half a unit in the last place, and it keeps every
  power of two as a bound.
\<close>

lemma pow2_pos [simp]: "0 < (power_int 2 k :: rat)"
  by (simp add: power_int_def)

lemma pow2_nat: "0 \<le> k \<Longrightarrow> (power_int 2 k :: rat) = 2 ^ nat k"
  by (rule power_int_nonneg_exp)

lemma pow2_mono: "i \<le> j \<Longrightarrow> (power_int 2 i :: rat) \<le> power_int 2 j"
  by (rule power_int_increasing) simp_all

lemma pow2_less_exp: "(power_int 2 i :: rat) < power_int 2 j \<Longrightarrow> i < j"
  using pow2_mono[of j i] by (cases "i < j") auto

lemma pow2_succ: "(power_int 2 (k + 1) :: rat) = 2 * power_int 2 k"
  by (simp add: power_int_add)

lemma pow2_pred: "(power_int 2 (k - 1) :: rat) = power_int 2 k / 2"
  by (simp add: power_int_diff)

lemma binade_bounds:
  assumes "0 < x"
  shows "power_int 2 (binade x) \<le> x \<and> x < power_int 2 (binade x + 1)"
proof -
  obtain a b where q: "quotient_of x = (a, b)" by (cases "quotient_of x")
  then have b: "0 < b" by (rule quotient_of_denom_pos)
  have x: "x = of_int a / of_int b" using q by (rule quotient_of_div)
  have a: "0 < a" using assms b x by (simp add: zero_less_divide_iff)
  define la lb where "la = bitlen a" and "lb = bitlen b"
  have la1: "1 \<le> la" and lb1: "1 \<le> lb"
    using a b bitlen_eq_zero_iff[of a] bitlen_eq_zero_iff[of b] bitlen_nonneg[of a] bitlen_nonneg[of b]
    by (auto simp: la_def lb_def)
  from bitlen_bounds[OF a] have A: "2 ^ nat (la - 1) \<le> a" "a < 2 ^ nat la" by (auto simp: la_def)
  from bitlen_bounds[OF b] have B: "2 ^ nat (lb - 1) \<le> b" "b < 2 ^ nat lb" by (auto simp: lb_def)
  have Ar: "(power_int 2 (la - 1) :: rat) \<le> of_int a" "(of_int a :: rat) < power_int 2 la"
  proof -
    have "(of_int (2 ^ nat (la - 1)) :: rat) \<le> of_int a" using A(1) by (simp only: of_int_le_iff)
    then show "(power_int 2 (la - 1) :: rat) \<le> of_int a" using la1 by (simp add: pow2_nat)
    have "(of_int a :: rat) < of_int (2 ^ nat la)" using A(2) by (simp only: of_int_less_iff)
    then show "(of_int a :: rat) < power_int 2 la" using la1 by (simp add: pow2_nat)
  qed
  have Br: "(power_int 2 (lb - 1) :: rat) \<le> of_int b" "(of_int b :: rat) < power_int 2 lb"
  proof -
    have "(of_int (2 ^ nat (lb - 1)) :: rat) \<le> of_int b" using B(1) by (simp only: of_int_le_iff)
    then show "(power_int 2 (lb - 1) :: rat) \<le> of_int b" using lb1 by (simp add: pow2_nat)
    have "(of_int b :: rat) < of_int (2 ^ nat lb)" using B(2) by (simp only: of_int_less_iff)
    then show "(of_int b :: rat) < power_int 2 lb" using lb1 by (simp add: pow2_nat)
  qed
  have bpos: "(0 :: rat) < of_int b" using b by simp
  define d where "d = la - lb"
  have lo: "power_int 2 (d - 1) \<le> x"
  proof -
    have "(power_int 2 (d - 1) :: rat) * of_int b \<le> power_int 2 (d - 1) * power_int 2 lb"
      using Br(2) by (intro mult_left_mono) simp_all
    also have "\<dots> = power_int 2 (la - 1)"
      by (simp add: d_def flip: power_int_add)
    also have "\<dots> \<le> of_int a" by (rule Ar(1))
    finally show ?thesis using bpos by (simp add: x pos_le_divide_eq)
  qed
  have hi: "x < power_int 2 (d + 1)"
  proof -
    have "(of_int a :: rat) < power_int 2 la" by (rule Ar(2))
    also have "\<dots> = power_int 2 (d + 1) * power_int 2 (lb - 1)"
      by (simp add: d_def flip: power_int_add)
    also have "\<dots> \<le> power_int 2 (d + 1) * of_int b"
      using Br(1) by (intro mult_left_mono) simp_all
    finally show ?thesis using bpos by (simp add: x pos_divide_less_eq)
  qed
  have e: "binade x = (if power_int 2 d \<le> x then d else d - 1)"
    by (simp add: binade_def q d_def la_def lb_def Let_def)
  show ?thesis
  proof (cases "power_int 2 d \<le> x")
    case True
    then show ?thesis using e hi by simp
  next
    case False
    then show ?thesis using e lo by simp
  qed
qed

lemma round_half_even_near: "\<bar>of_int (round_half_even q) - q\<bar> \<le> 1 / 2"
proof -
  have "of_int \<lfloor>q\<rfloor> \<le> q" "q < of_int \<lfloor>q\<rfloor> + 1" by linarith+
  then show ?thesis by (auto simp: round_half_even_def Let_def)
qed

lemma round_half_even_ge: "of_int n \<le> q \<Longrightarrow> n \<le> round_half_even q"
proof -
  assume "of_int n \<le> q"
  then have "n \<le> \<lfloor>q\<rfloor>" by (simp add: le_floor_iff)
  then show ?thesis by (auto simp: round_half_even_def Let_def)
qed

lemma to_double_pos:
  assumes "0 < x"
  shows "to_double x =
    of_int (round_half_even (x / power_int 2 (binade x - 52))) * power_int 2 (binade x - 52)"
  using assms by (simp add: to_double_def Let_def)

lemma to_double_near_pos:
  assumes "0 < x"
  shows "\<bar>to_double x - x\<bar> \<le> power_int 2 (binade x - 53)"
proof -
  define u :: rat where "u = power_int 2 (binade x - 52)"
  have u: "0 < u" by (simp add: u_def)
  define n where "n = round_half_even (x / u)"
  have td: "to_double x = of_int n * u"
    using to_double_pos[OF assms] by (simp add: u_def n_def)
  have half: "u / 2 = power_int 2 (binade x - 53)"
    using pow2_pred[of "binade x - 52"] by (simp add: u_def)
  have "\<bar>of_int n - x / u\<bar> \<le> 1 / 2" unfolding n_def by (rule round_half_even_near)
  then have "\<bar>of_int n - x / u\<bar> * u \<le> 1 / 2 * u" using u by (intro mult_right_mono) simp_all
  moreover have "\<bar>of_int n - x / u\<bar> * u = \<bar>of_int n * u - x\<bar>"
  proof -
    have "\<bar>of_int n - x / u\<bar> * u = \<bar>(of_int n - x / u) * u\<bar>"
      using u by (simp add: abs_mult)
    moreover have "(of_int n - x / u) * u = of_int n * u - x"
      using u by (simp add: left_diff_distrib)
    ultimately show ?thesis by simp
  qed
  ultimately have "\<bar>of_int n * u - x\<bar> \<le> u / 2" by simp
  then show ?thesis unfolding td half .
qed

lemma to_double_ge_binade:
  assumes "0 < x"
  shows "power_int 2 (binade x) \<le> to_double x"
proof -
  define u :: rat where "u = power_int 2 (binade x - 52)"
  have u: "0 < u" by (simp add: u_def)
  have "power_int 2 (binade x) = (2 ^ 52 :: rat) * u"
    using power_int_add[of "2::rat" 52 "binade x - 52"] by (simp add: u_def)
  moreover have "power_int 2 (binade x) \<le> x" using binade_bounds[OF assms] by simp
  ultimately have "(2 ^ 52 :: rat) \<le> x / u" using u by (simp add: pos_le_divide_eq)
  then have "(of_int (2 ^ 52) :: rat) \<le> x / u" by simp
  then have "2 ^ 52 \<le> round_half_even (x / u)" by (rule round_half_even_ge)
  then have "(of_int (2 ^ 52) :: rat) \<le> of_int (round_half_even (x / u))"
    by (simp only: of_int_le_iff)
  then have "(2 ^ 52 :: rat) * u \<le> of_int (round_half_even (x / u)) * u"
    using u by (intro mult_right_mono) simp_all
  then show ?thesis
    using to_double_pos[OF assms] \<open>power_int 2 (binade x) = (2 ^ 52 :: rat) * u\<close>
    by (simp add: u_def)
qed

lemma to_double_nonneg: "0 \<le> x \<Longrightarrow> 0 \<le> to_double x"
proof (cases "x = 0")
  case True
  then show ?thesis by (simp add: to_double_def)
next
  case False
  assume "0 \<le> x"
  with False have x: "0 < x" by simp
  have "0 < (power_int 2 (binade x) :: rat)" by simp
  with to_double_ge_binade[OF x] show ?thesis by linarith
qed

lemma binade_ge: assumes "0 < x" and "power_int 2 k \<le> x" shows "k \<le> binade x"
proof -
  have "power_int 2 k < (power_int 2 (binade x + 1) :: rat)"
    using binade_bounds[OF assms(1)] assms(2) by linarith
  then have "k < binade x + 1" by (rule pow2_less_exp)
  then show ?thesis by simp
qed

lemma binade_less: assumes "0 < x" and "x < power_int 2 k" shows "binade x < k"
proof -
  have "(power_int 2 (binade x) :: rat) < power_int 2 k"
    using binade_bounds[OF assms(1)] assms(2) by linarith
  then show ?thesis by (rule pow2_less_exp)
qed

lemma to_double_half_le:
  assumes "1 / 2 \<le> x"
  shows "1 / 2 \<le> to_double x"
proof -
  have x: "0 < x" using assms by linarith
  have "(power_int 2 (- 1) :: rat) \<le> x" using assms by (simp add: power_int_minus)
  from binade_ge[OF x this] have "(power_int 2 (- 1) :: rat) \<le> power_int 2 (binade x)"
    by (rule pow2_mono)
  with to_double_ge_binade[OF x] show ?thesis by (simp add: power_int_minus)
qed

lemma to_double_near_small:
  assumes "0 < x" and "x < power_int 2 k"
  shows "\<bar>to_double x - x\<bar> \<le> power_int 2 (k - 54)"
proof -
  have "binade x - 53 \<le> k - 54" using binade_less[OF assms] by simp
  then have "(power_int 2 (binade x - 53) :: rat) \<le> power_int 2 (k - 54)" by (rule pow2_mono)
  with to_double_near_pos[OF assms(1)] show ?thesis by linarith
qed

lemma ratio_half_iff:
  assumes "0 < n" and "n < 2 ^ 53"
  shows "1 / 2 \<le> to_double (of_nat k / of_nat n) \<longleftrightarrow> n \<le> 2 * k"
proof
  assume "n \<le> 2 * k"
  then have "(of_nat n :: rat) \<le> of_nat (2 * k)" by (simp only: of_nat_le_iff)
  then have "(1 / 2 :: rat) \<le> of_nat k / of_nat n"
    using assms(1) by (simp add: pos_le_divide_eq)
  then show "1 / 2 \<le> to_double (of_nat k / of_nat n)" by (rule to_double_half_le)
next
  assume h: "1 / 2 \<le> to_double (of_nat k / of_nat n)"
  show "n \<le> 2 * k"
  proof (rule ccontr)
    assume "\<not> n \<le> 2 * k"
    then have lt: "2 * k + 1 \<le> n" by simp
    define x :: rat where "x = of_nat k / of_nat n"
    have npos: "(0 :: rat) < of_nat n" using assms(1) by simp
    have k0: "k \<noteq> 0"
    proof
      assume "k = 0"
      then have "to_double (of_nat k / of_nat n) = 0" by (simp add: to_double_def)
      with h show False by simp
    qed
    then have x: "0 < x" using npos by (simp add: x_def)
    have "(of_nat (2 * k + 1) :: rat) \<le> of_nat n" using lt by (simp only: of_nat_le_iff)
    then have gap: "x \<le> 1 / 2 - 1 / (2 * of_nat n)"
      using npos by (simp add: x_def field_simps)
    have "(of_nat n :: rat) < of_nat (2 ^ 53)" using assms(2) by (simp only: of_nat_less_iff)
    then have nb: "(of_nat n :: rat) < 2 ^ 53" by simp
    have "1 / (2 * (2 ^ 53 :: rat)) < 1 / (2 * of_nat n)"
      using nb npos by (simp add: field_simps)
    then have small: "(1 / 2 ^ 54 :: rat) < 1 / (2 * of_nat n)" by simp
    have "(0 :: rat) < 1 / (2 * of_nat n)" using npos by simp
    with gap have "x < 1 / 2" by linarith
    then have "x < power_int 2 (- 1)" by (simp add: power_int_minus)
    from to_double_near_small[OF x this] have "\<bar>to_double x - x\<bar> \<le> power_int 2 (- 55)" by simp
    moreover have "(power_int 2 (- 55) :: rat) = 1 / 2 ^ 55" by (simp add: power_int_minus_divide)
    ultimately have "to_double x \<le> x + 1 / 2 ^ 55" by linarith
    moreover have "(1 / 2 ^ 55 :: rat) < 1 / 2 ^ 54" by simp
    ultimately have "to_double x < 1 / 2" using gap small by linarith
    with h show False by (simp add: x_def)
  qed
qed

lemma double_six_tenths: "to_double (6 / 10) = 5404319552844595 / 9007199254740992"
  by code_simp

lemma double_sum: "to_double (to_double (6 / 10) + to_double (3 / 10)) = 8106479329266892 / 2 ^ 53"
  by code_simp

lemma product_near:
  assumes "0 < k" and "k \<le> n"
  shows "\<bar>to_double (to_double (6 / 10) * to_double (of_nat k / of_nat n)) - 6 / 10 * (of_nat k / of_nat n)\<bar>
         \<le> 1 / 2 ^ 52"
proof -
  define x :: rat where "x = of_nat k / of_nat n"
  define r where "r = to_double x"
  define y where "y = to_double (6 / 10) * r"
  have n: "(0 :: rat) < of_nat n" using assms by simp
  have x0: "0 < x" using assms n by (simp add: x_def)
  have "(of_nat k :: rat) \<le> of_nat n" using assms(2) by (simp only: of_nat_le_iff)
  then have x1: "x \<le> 1" using n by (simp add: x_def pos_divide_le_eq)
  then have "x < power_int 2 1" by simp
  from to_double_near_small[OF x0 this] have "\<bar>r - x\<bar> \<le> power_int 2 (- 53)" by (simp add: r_def)
  moreover have "(power_int 2 (- 53) :: rat) = 1 / 9007199254740992"
    by (simp add: power_int_minus_divide)
  ultimately have rx: "r - x \<le> 1 / 9007199254740992" "x - r \<le> 1 / 9007199254740992"
    by linarith+
  have r0: "0 < r"
  proof -
    have "(0 :: rat) < power_int 2 (binade x)" by simp
    with to_double_ge_binade[OF x0] show ?thesis unfolding r_def by linarith
  qed
  have yr: "y = 5404319552844595 / 9007199254740992 * r"
    unfolding y_def double_six_tenths by (rule refl)
  have y0: "0 < y" using r0 by (simp add: yr)
  have "y < 1" using rx(1) x1 unfolding yr by linarith
  then have "y < power_int 2 0" by simp
  from to_double_near_small[OF y0 this] have "\<bar>to_double y - y\<bar> \<le> power_int 2 (- 54)" by simp
  moreover have "(power_int 2 (- 54) :: rat) = 1 / 18014398509481984"
    by (simp add: power_int_minus_divide)
  ultimately have ty: "to_double y - y \<le> 1 / 18014398509481984"
      "y - to_double y \<le> 1 / 18014398509481984"
    by linarith+
  have "\<bar>to_double y - 6 / 10 * x\<bar> \<le> 1 / 4503599627370496"
    using ty rx x0 x1 r0 unfolding yr by linarith
  then show ?thesis by (simp add: y_def r_def x_def)
qed

subsection \<open>The score\<close>

lemma index_from_neg_iff: "index_from pat xs i = - 1 \<longleftrightarrow> \<not> sublist pat xs"
proof (induction xs arbitrary: i)
  case Nil
  then show ?case by simp
next
  case (Cons c cs)
  show ?case
  proof (cases "prefix pat (c # cs)")
    case True
    then have "sublist pat (c # cs)" by (simp add: sublist_Cons_right)
    with True show ?thesis by simp
  next
    case False
    then show ?thesis using Cons.IH[of "Suc i"] by (simp add: sublist_Cons_right)
  qed
qed

lemma js_includes_sublist: "js_includes s pat \<longleftrightarrow> sublist pat s"
  by (simp add: js_includes_def indexOf_def index_from_neg_iff)

lemma fold_count: "fold (\<lambda>x m. if P x then m + 1 else m) xs (n::nat) = n + length (filter P xs)"
  by (induction xs arbitrary: n) auto

lemma textMatchScore_nonneg: "0 \<le> textMatchScore query t"
proof -
  have c: "0 \<le> TEXT_MATCH_SCORE" by (simp add: TEXT_MATCH_SCORE_def to_double_nonneg)
  have a: "0 \<le> to_double (TEXT_MATCH_SCORE + to_double (3 / 10))"
    using c by (intro to_double_nonneg add_nonneg_nonneg) simp_all
  have b: "0 \<le> to_double (TEXT_MATCH_SCORE * to_double (of_nat i / of_nat j))" for i j :: nat
    using c by (intro to_double_nonneg mult_nonneg_nonneg) simp_all
  show ?thesis
    using a b by (simp add: textMatchScore_def Let_def)
qed

text \<open>
  C3 (as amended). If the lower-cased text contains the lower-cased query as a substring,
  the score is the double sum \<open>0.6 + 0.3\<close>. This sum is \<open>8106479329266892 / 2^53\<close>, which
  JavaScript prints as \<open>0.8999999999999999\<close>; it is not \<open>0.9\<close>, whose double is
  \<open>8106479329266893 / 2^53\<close>. Otherwise, with the pieces of the lower-cased query between
  runs of whitespace that are longer than two characters as its words: the score is \<open>0\<close>
  when there is no such word, and else the double product \<open>0.6 * matchRatio\<close> when
  \<open>matchRatio \<ge> 0.5\<close> and \<open>0\<close> when it is smaller, where \<open>matchRatio\<close> is the double quotient
  of the number of words that are substrings of the lower-cased text by the number of
  words. With fewer than \<open>2^53\<close> words, \<open>matchRatio \<ge> 0.5\<close> holds exactly when at least half
  of the words are found, and the product is within \<open>2^-52\<close> of six tenths of the exact
  share. In particular \<open>textMatchScore("cat", "I have a cat")\<close> is \<open>0.8999999999999999\<close>
  and \<open>textMatchScore("xyz123", "no match here")\<close> is \<open>0\<close>; upper case in the query or in
  the text does not change the score; two words found of three give
  \<open>0.39999999999999997\<close>, one of two gives \<open>0.3\<close>, one of four gives \<open>0\<close>, and a query of
  short words only gives \<open>0\<close>.
\<close>

theorem textMatchScore_rule:
  fixes query t :: string
  defines "ws \<equiv> filter (\<lambda>w. 2 < length w) (js_split_ws (toLowerCase query))"
  defines "matched \<equiv> length (filter (\<lambda>w. sublist w (toLowerCase t)) ws)"
  defines "matchRatio \<equiv> to_double (of_nat matched / of_nat (length ws))"
  shows
  "textMatchScore query t =
     (if sublist (toLowerCase query) (toLowerCase t)
      then to_double (to_double (6 / 10) + to_double (3 / 10))
      else if ws = [] then 0
      else if 1 / 2 \<le> matchRatio then to_double (to_double (6 / 10) * matchRatio)
      else 0)
   \<and> to_double (to_double (6 / 10) + to_double (3 / 10)) = 8106479329266892 / 2 ^ 53
   \<and> to_double (9 / 10) = 8106479329266893 / 2 ^ 53
   \<and> (ws \<noteq> [] \<and> length ws < 2 ^ 53 \<longrightarrow> (1 / 2 \<le> matchRatio \<longleftrightarrow> length ws \<le> 2 * matched))
   \<and> (ws \<noteq> [] \<and> 1 / 2 \<le> matchRatio \<longrightarrow>
        \<bar>to_double (to_double (6 / 10) * matchRatio)
          - 6 / 10 * (of_nat matched / of_nat (length ws))\<bar> \<le> 1 / 2 ^ 52)
   \<and> textMatchScore ''cat'' ''I have a cat'' = 8106479329266892 / 2 ^ 53
   \<and> textMatchScore ''xyz123'' ''no match here'' = 0
   \<and> textMatchScore ''CAT'' ''i have a cat'' = 8106479329266892 / 2 ^ 53
   \<and> textMatchScore ''cat'' ''I HAVE A CAT'' = 8106479329266892 / 2 ^ 53
   \<and> textMatchScore (''  Big   DOG'' @ [CHR 0x09] @ ''house '') ''The dog is in the HOUSE''
       = 7205759403792793 / 2 ^ 54
   \<and> textMatchScore ''big dog'' ''the DOG'' = 5404319552844595 / 2 ^ 54
   \<and> textMatchScore ''big red dog house'' ''the dog'' = 0
   \<and> textMatchScore ''an ox'' ''ox an'' = 0"
proof (intro conjI impI)
  show "textMatchScore query t =
     (if sublist (toLowerCase query) (toLowerCase t)
      then to_double (to_double (6 / 10) + to_double (3 / 10))
      else if ws = [] then 0
      else if 1 / 2 \<le> matchRatio then to_double (to_double (6 / 10) * matchRatio)
      else 0)"
    unfolding ws_def matched_def matchRatio_def
    by (simp add: textMatchScore_def Let_def js_includes_sublist fold_count TEXT_MATCH_SCORE_def)
  show "to_double (to_double (6 / 10) + to_double (3 / 10)) = 8106479329266892 / 2 ^ 53"
    by (rule double_sum)
  show "to_double (9 / 10) = 8106479329266893 / 2 ^ 53" by code_simp
  show "textMatchScore ''cat'' ''I have a cat'' = 8106479329266892 / 2 ^ 53" by code_simp
  show "textMatchScore ''xyz123'' ''no match here'' = 0" by code_simp
  show "textMatchScore ''CAT'' ''i have a cat'' = 8106479329266892 / 2 ^ 53" by code_simp
  show "textMatchScore ''cat'' ''I HAVE A CAT'' = 8106479329266892 / 2 ^ 53" by code_simp
  show "textMatchScore (''  Big   DOG'' @ [CHR 0x09] @ ''house '') ''The dog is in the HOUSE''
       = 7205759403792793 / 2 ^ 54" by code_simp
  show "textMatchScore ''big dog'' ''the DOG'' = 5404319552844595 / 2 ^ 54" by code_simp
  show "textMatchScore ''big red dog house'' ''the dog'' = 0" by code_simp
  show "textMatchScore ''an ox'' ''ox an'' = 0" by code_simp
next
  assume a: "ws \<noteq> [] \<and> length ws < 2 ^ 53"
  then have "0 < length ws" by simp
  from ratio_half_iff[OF this, of matched] a
  show "1 / 2 \<le> matchRatio \<longleftrightarrow> length ws \<le> 2 * matched"
    by (simp add: matchRatio_def)
next
  assume a: "ws \<noteq> [] \<and> 1 / 2 \<le> matchRatio"
  have le: "matched \<le> length ws" by (simp add: matched_def)
  have "matched \<noteq> 0"
  proof
    assume "matched = 0"
    then have "matchRatio = 0" by (simp add: matchRatio_def to_double_def)
    with a show False by simp
  qed
  then have "0 < matched" by simp
  from product_near[OF this le]
  show "\<bar>to_double (to_double (6 / 10) * matchRatio)
          - 6 / 10 * (of_nat matched / of_nat (length ws))\<bar> \<le> 1 / 2 ^ 52"
    by (simp only: matchRatio_def)
qed

text \<open>
  The query \<open>"big dog house"\<close> has three words, none shorter than three characters, and
  the text \<open>"The DOG is in the House"\<close> holds two of them.
\<close>

theorem textMatchScore_rule_witness:
  "filter (\<lambda>w. 2 < length w) (js_split_ws (toLowerCase ''big dog house'')) = [''big'', ''dog'', ''house'']
   \<and> 1 / 2 \<le> to_double (2 / 3)
   \<and> \<bar>to_double (to_double (6 / 10) * to_double (2 / 3)) - 6 / 10 * (2 / 3)\<bar> \<le> 1 / 2 ^ 52
   \<and> textMatchScore ''big dog house'' ''The DOG is in the House''
       = to_double (to_double (6 / 10) * to_double (2 / 3))"
proof -
  have ws: "filter (\<lambda>w. 2 < length w) (js_split_ws (toLowerCase ''big dog house''))
            = [''big'', ''dog'', ''house'']"
    by code_simp
  have m: "length (filter (\<lambda>w. sublist w (toLowerCase ''The DOG is in the House''))
             [''big'', ''dog'', ''house'']) = 2"
    by code_simp
  have ns: "\<not> sublist (toLowerCase ''big dog house'') (toLowerCase ''The DOG is in the House'')"
    by code_simp
  have len: "length [''big'', ''dog'', ''house''] = 3"
    by simp
  note r = textMatchScore_rule[of "''big dog house''" "''The DOG is in the House''",
      unfolded ws m len]
  from r have half: "1 / 2 \<le> to_double (of_nat 2 / of_nat 3)" by simp
  from r half have near: "\<bar>to_double (to_double (6 / 10) * to_double (of_nat 2 / of_nat 3))
          - 6 / 10 * (of_nat 2 / of_nat 3)\<bar> \<le> 1 / 2 ^ 52"
    by blast
  from r ns half have eq: "textMatchScore ''big dog house'' ''The DOG is in the House''
       = to_double (to_double (6 / 10) * to_double (of_nat 2 / of_nat 3))"
    by simp
  from ws half near eq show ?thesis by simp
qed

text \<open>
  The substring score of \<open>"cat"\<close> in \<open>"I have a cat"\<close> is neither the number \<open>0.9\<close> nor the
  double of \<open>0.9\<close>.
\<close>

theorem textMatchScore_cat_counterexample:
  "textMatchScore ''cat'' ''I have a cat'' = 8106479329266892 / 2 ^ 53
   \<and> textMatchScore ''cat'' ''I have a cat'' \<noteq> 9 / 10
   \<and> textMatchScore ''cat'' ''I have a cat'' \<noteq> to_double (9 / 10)"
  by code_simp

section \<open>Properties of the garbled-text detector\<close>

text \<open>
  The matches of \<open>/[a-zA-Z]{3,}/g\<close> are the maximal runs of letters that have at least
  three letters: a shorter run is stepped through one character at a time without a match.
\<close>

lemma match_words_short_run:
  "length (takeWhile is_alpha s) < 3 \<Longrightarrow> match_words s = match_words (dropWhile is_alpha s)"
proof (induction s)
  case Nil
  then show ?case by simp
next
  case (Cons c cs)
  show ?case
  proof (cases "is_alpha c")
    case True
    with Cons.prems have "length (takeWhile is_alpha cs) < 3" by simp
    from Cons.IH[OF this] Cons.prems True show ?thesis
      by (subst match_words.simps) (simp add: Let_def)
  next
    case False
    then show ?thesis by simp
  qed
qed

lemma drop_takeWhile: "drop (length (takeWhile P s)) s = dropWhile P s"
  by (induction s) auto

lemma match_words_runs: "match_words s = filter (\<lambda>w. 3 \<le> length w) (alpha_runs s)"
proof (induction s rule: length_induct)
  case (1 s)
  show ?case
  proof (cases "s = []")
    case True
    then show ?thesis by (simp add: match_words.simps alpha_runs.simps)
  next
    case ne: False
    show ?thesis
    proof (cases "is_alpha (hd s)")
      case True
      have shorter: "length (dropWhile is_alpha s) < length s"
        using dropWhile_shorter[OF ne, of is_alpha] True by simp
      have IH: "match_words (dropWhile is_alpha s) =
          filter (\<lambda>w. 3 \<le> length w) (alpha_runs (dropWhile is_alpha s))"
        using 1 shorter by blast
      show ?thesis
      proof (cases "3 \<le> length (takeWhile is_alpha s)")
        case long: True
        have "match_words s = takeWhile is_alpha s # match_words (dropWhile is_alpha s)"
          using ne long by (subst match_words.simps) (simp add: Let_def drop_takeWhile)
        moreover have "alpha_runs s = takeWhile is_alpha s # alpha_runs (dropWhile is_alpha s)"
          using ne True by (subst alpha_runs.simps) simp
        ultimately show ?thesis using IH long by simp
      next
        case short: False
        then have "match_words s = match_words (dropWhile is_alpha s)"
          using match_words_short_run[of s] by simp
        moreover have "alpha_runs s = takeWhile is_alpha s # alpha_runs (dropWhile is_alpha s)"
          using ne True by (subst alpha_runs.simps) simp
        ultimately show ?thesis using IH short by simp
      qed
    next
      case False
      have "length (tl s) < length s" using ne by (cases s) auto
      then have IH: "match_words (tl s) = filter (\<lambda>w. 3 \<le> length w) (alpha_runs (tl s))"
        using 1 by blast
      have tw: "takeWhile is_alpha s = []" using ne False by (cases s) auto
      have "match_words s = match_words (tl s)"
        using ne tw by (subst match_words.simps) (simp add: Let_def)
      moreover have "alpha_runs s = alpha_runs (tl s)"
        using ne False by (subst alpha_runs.simps) simp
      ultimately show ?thesis using IH by simp
    qed
  qed
qed

lemma match_words_no_alpha: "\<forall>c\<in>set s. \<not> is_alpha c \<Longrightarrow> match_words s = []"
proof (induction s)
  case Nil
  then show ?case by (simp add: match_words.simps)
next
  case (Cons c cs)
  then have "takeWhile is_alpha (c # cs) = []" by simp
  with Cons show ?case by (subst match_words.simps) (simp add: Let_def)
qed

lemma isGarbledText_no_alpha:
  assumes "100 \<le> length t" and "\<forall>c\<in>set t. \<not> is_alpha c"
  shows "isGarbledText t"
proof -
  have "\<forall>c\<in>set (js_slice t 0 2000). \<not> is_alpha c"
    using assms(2) by (auto simp: js_slice_def Let_def dest: in_set_takeD)
  then have "match_words (js_slice t 0 2000) = []" by (rule match_words_no_alpha)
  then show ?thesis using assms(1) by (auto simp: isGarbledText_def Let_def)
qed

lemma js_slice_take: "js_slice s 0 (int n) = take n s"
  by (simp add: js_slice_def Let_def min_def)

lemma set_concat_replicate: "set (concat (replicate n xs)) \<subseteq> set xs"
  by (induction n) auto

lemma length_concat_replicate: "length (concat (replicate n xs)) = n * length xs"
  by (induction n) auto

lemma symbols_garbled: "isGarbledText (concat (replicate n ''@#$%'')) \<longleftrightarrow> 25 \<le> n"
proof (cases "25 \<le> n")
  case True
  have "\<forall>c\<in>set (concat (replicate n ''@#$%'')). \<not> is_alpha c"
    using set_concat_replicate[of n "''@#$%''"] by (auto simp: is_alpha_def)
  moreover have "100 \<le> length (concat (replicate n ''@#$%''))"
    using True by (simp add: length_concat_replicate)
  ultimately show ?thesis using True isGarbledText_no_alpha by blast
next
  case False
  then show ?thesis by (simp add: isGarbledText_def length_concat_replicate)
qed

text \<open>
  C7. \<open>isGarbledText\<close> is false for a text of fewer than 100 characters (the empty text
  among them). For any other text, over the sample of its first 2000 characters, with the
  words the maximal runs of at least three letters, \<open>wordChars\<close> their total length,
  \<open>totalChars\<close> the number of non-whitespace characters, \<open>wordRatio = wordChars/totalChars\<close>
  (\<open>0\<close> if \<open>totalChars = 0\<close>), \<open>bracketRatio\<close> the share of the nineteen symbol characters
  in \<open>totalChars\<close> (whatever value \<open>d\<close> it is given when \<open>totalChars = 0\<close>) and
  \<open>avgWordLen = wordChars/len(words)\<close> (\<open>0\<close> without words), the result is true iff
  \<open>wordRatio < 0.4\<close> or \<open>bracketRatio > 0.1\<close> or (\<open>len(words) > 10\<close> and \<open>avgWordLen < 3\<close>).
  In particular the empty text is not garbled, and a text of 2000 characters that repeats
  \<open>@#$%\<close> is, as is the text of 2000 repetitions of \<open>@#$%\<close>.
\<close>

theorem isGarbledText_spec:
  "isGarbledText t =
     (if length t < 100 then False
      else
        let sample = take 2000 t;
            words = filter (\<lambda>w. 3 \<le> length w) (alpha_runs sample);
            wordChars = sum_list (map length words);
            totalChars = length (filter (\<lambda>c. \<not> is_ws c) sample);
            wordRatio = (if totalChars = 0 then 0 else of_nat wordChars / of_nat totalChars :: rat);
            bracketRatio =
              (if totalChars = 0 then d
               else of_nat (length (filter is_bracket sample)) / of_nat totalChars :: rat);
            avgWordLen = (if words = [] then 0 else of_nat wordChars / of_nat (length words) :: rat)
        in wordRatio < 4 / 10 \<or> bracketRatio > 1 / 10 \<or> (length words > 10 \<and> avgWordLen < 3))
   \<and> \<not> isGarbledText []
   \<and> isGarbledText (concat (replicate 500 ''@#$%''))
   \<and> isGarbledText (concat (replicate 2000 ''@#$%''))"
proof (intro conjI)
  show "\<not> isGarbledText []" by (simp add: isGarbledText_def)
  show "isGarbledText (concat (replicate 500 ''@#$%''))" by (simp add: symbols_garbled)
  show "isGarbledText (concat (replicate 2000 ''@#$%''))" by (simp add: symbols_garbled)
  have sl: "js_slice t 0 2000 = take 2000 t"
    using js_slice_take[of t 2000] by simp
  show "isGarbledText t =
     (if length t < 100 then False
      else
        let sample = take 2000 t;
            words = filter (\<lambda>w. 3 \<le> length w) (alpha_runs sample);
            wordChars = sum_list (map length words);
            totalChars = length (filter (\<lambda>c. \<not> is_ws c) sample);
            wordRatio = (if totalChars = 0 then 0 else of_nat wordChars / of_nat totalChars :: rat);
            bracketRatio =
              (if totalChars = 0 then d
               else of_nat (length (filter is_bracket sample)) / of_nat totalChars :: rat);
            avgWordLen = (if words = [] then 0 else of_nat wordChars / of_nat (length words) :: rat)
        in wordRatio < 4 / 10 \<or> bracketRatio > 1 / 10 \<or> (length words > 10 \<and> avgWordLen < 3))"
  proof (cases "length t < 100")
    case True
    then show ?thesis by (simp add: isGarbledText_def)
  next
    case False
    then have ne: "t \<noteq> []" by auto
    show ?thesis
    proof (cases "length (filter (\<lambda>c. \<not> is_ws c) (take 2000 t)) = 0")
      case True
      then show ?thesis
        using False ne unfolding isGarbledText_def sl match_words_runs length_concat Let_def
        by simp
    next
      case nz: False
      show ?thesis
        using False ne nz unfolding isGarbledText_def sl match_words_runs length_concat Let_def
        by simp
    qed
  qed
qed

section \<open>Properties of the global search\<close>

lemma find_None_image: "x \<notin> f ` set xs \<Longrightarrow> find (\<lambda>y. f y = x) xs = None"
  by (auto simp: find_None_iff)

text \<open>
  C5 (as amended). \<open>globalSearch\<close> on a project id that no project has returns
  \<open>{results: [], totalResults: 0}\<close>; \<open>searchProjectDocument\<close> on an id that no project
  document has raises the error \<open>Project document not found\<close>.
\<close>

theorem unknown_id:
  "(projectId \<notin> project_id ` set (projects st) \<longrightarrow>
      globalSearch st projectId query filters limit = \<lparr>results = [], totalResults = 0\<rparr>)
   \<and> (projectDocId \<notin> pd_id ` set (projectDocuments st) \<longrightarrow>
      searchProjectDocument provider cosineSimilarity searchDocument st projectDocId query =
        Inl (Error ''Project document not found''))"
  by (simp add: globalSearch_def searchProjectDocument_def find_None_image)

theorem unknown_id_witness:
  "globalSearch no_state ''p0'' ''cat'' None 20 = \<lparr>results = [], totalResults = 0\<rparr>
   \<and> searchProjectDocument (\<lambda>t. []) (\<lambda>a b. 0) (\<lambda>q c rs. ([] :: unit list)) no_state ''pd0'' ''cat'' =
        Inl (Error ''Project document not found'')"
  using unknown_id[where projectId = "''p0''" and st = no_state and projectDocId = "''pd0''"
      and query = "''cat''" and filters = None and limit = 20 and provider = "\<lambda>t. []"
      and cosineSimilarity = "\<lambda>a b. 0" and searchDocument = "\<lambda>q c rs. ([] :: unit list)"]
  by (simp add: no_state_def)

text \<open>
  The claim as stated fails for \<open>searchProjectDocument\<close>: on the state without any project
  document the call is an error, not an empty result.
\<close>

theorem searchProjectDocument_unknown_counterexample:
  "searchProjectDocument (\<lambda>t. []) (\<lambda>a b. 0) (\<lambda>q c rs. ([] :: unit list)) no_state ''pd0'' ''cat''
     = Inl (Error ''Project document not found'')
   \<and> searchProjectDocument (\<lambda>t. []) (\<lambda>a b. 0) (\<lambda>q c rs. ([] :: unit list)) no_state ''pd0'' ''cat''
     \<noteq> Inr ([], no_state)"
  by (simp add: searchProjectDocument_def no_state_def)

lemma textMatchScore_pos_iff: "0 < textMatchScore query txt \<longleftrightarrow> textMatchScore query txt \<noteq> 0"
  using textMatchScore_nonneg[of query "txt"] by auto

lemma set_sort_by_score: "set (sort_by_score rs) = set rs"
  by (simp add: sort_by_score_def)

lemma length_sort_by_score: "length (sort_by_score rs) = length rs"
  by (simp add: sort_by_score_def)

lemma globalSearch_found:
  assumes "find (\<lambda>p. project_id p = projectId) (projects st) = Some project"
  shows "globalSearch st projectId query filters limit =
     \<lparr>results = js_slice (sort_by_score (candidate_pool st project projectId query filters)) 0 limit,
      totalResults = length (candidate_pool st project projectId query filters)\<rparr>"
  using assms by (simp add: globalSearch_def Let_def)

lemma results_subset_pool:
  assumes "find (\<lambda>p. project_id p = projectId) (projects st) = Some project"
  shows "set (results (globalSearch st projectId query filters limit))
         \<subseteq> set (candidate_pool st project projectId query filters)"
  using set_js_slice[of "sort_by_score (candidate_pool st project projectId query filters)" 0 limit]
  by (simp add: globalSearch_found[OF assms] set_sort_by_score)

lemma results_all_of_pool:
  assumes "find (\<lambda>p. project_id p = projectId) (projects st) = Some project"
    and "int (totalResults (globalSearch st projectId query filters limit)) \<le> limit"
  shows "set (results (globalSearch st projectId query filters limit))
         = set (candidate_pool st project projectId query filters)"
  using assms(2)
  by (simp add: globalSearch_found[OF assms(1)] js_slice_whole length_sort_by_score set_sort_by_score)

lemma folder_results_folderId: "r \<in> set (folder_results query filters folder) \<Longrightarrow> folderId r \<noteq> None"
  by (auto simp: folder_results_def Let_def split: if_splits)

lemma document_results_type:
  "r \<in> set (document_results query filters row) \<Longrightarrow> result_type r = document_context"
  by (auto simp: document_results_def Let_def split: if_splits prod.splits)

lemma annotation_results_type:
  "r \<in> set (annotation_results query filters row) \<Longrightarrow> result_type r = annotation"
  by (auto simp: annotation_results_def Let_def split: if_splits prod.splits)

lemma pool_folder_context:
  assumes "r \<in> set (candidate_pool st project projectId query filters)"
    and "result_type r = folder_context"
  shows "r \<in> set (project_results query project) \<or> folderId r \<noteq> None"
  using assms
  by (auto simp: candidate_pool_def dest: folder_results_folderId document_results_type
      annotation_results_type)

text \<open>
  C9 (as amended). For the project found by \<open>globalSearch\<close>: when its context summary or
  its thesis is a non-empty text and the lexical score of the joined summary, thesis and
  name is not zero, the project itself gives exactly one \<open>folder_context\<close> result, without
  folder id and with that score; it is in the pool of results that \<open>totalResults\<close> counts,
  and among the returned results when \<open>limit\<close> does not cut the pool. When the project has
  neither, it gives no result, whatever its name: every \<open>folder_context\<close> result returned
  then belongs to a folder.
\<close>

theorem project_level_result:
  assumes "find (\<lambda>p. project_id p = projectId) (projects st) = Some project"
  shows "(truthy (project_contextSummary project) \<or> truthy (project_thesis project) \<longrightarrow>
          textMatchScore query (project_text project) \<noteq> 0 \<longrightarrow>
            (\<exists>r. project_results query project = [r] \<and> result_type r = folder_context \<and>
                 folderId r = None \<and>
                 similarityScore r = textMatchScore query (project_text project) \<and>
                 r \<in> set (candidate_pool st project projectId query filters) \<and>
                 (int (totalResults (globalSearch st projectId query filters limit)) \<le> limit \<longrightarrow>
                    r \<in> set (results (globalSearch st projectId query filters limit)))))
       \<and> (\<not> truthy (project_contextSummary project) \<and> \<not> truthy (project_thesis project) \<longrightarrow>
            project_results query project = [] \<and>
            (\<forall>r \<in> set (results (globalSearch st projectId query filters limit)).
               result_type r = folder_context \<longrightarrow> folderId r \<noteq> None))"
proof (intro conjI impI)
  assume t: "truthy (project_contextSummary project) \<or> truthy (project_thesis project)"
    and nz: "textMatchScore query (project_text project) \<noteq> 0"
  from nz have pos: "0 < textMatchScore query (project_text project)"
    by (simp add: textMatchScore_pos_iff)
  obtain r where r: "project_results query project = [r]" "result_type r = folder_context"
      "folderId r = None" "similarityScore r = textMatchScore query (project_text project)"
    using t pos by (auto simp: project_results_def project_text_def Let_def)
  have in_pool: "r \<in> set (candidate_pool st project projectId query filters)"
    using r(1) by (simp add: candidate_pool_def)
  have "int (totalResults (globalSearch st projectId query filters limit)) \<le> limit \<longrightarrow>
          r \<in> set (results (globalSearch st projectId query filters limit))"
    using results_all_of_pool[OF assms] in_pool by blast
  with r in_pool show "\<exists>r. project_results query project = [r] \<and> result_type r = folder_context \<and>
                 folderId r = None \<and>
                 similarityScore r = textMatchScore query (project_text project) \<and>
                 r \<in> set (candidate_pool st project projectId query filters) \<and>
                 (int (totalResults (globalSearch st projectId query filters limit)) \<le> limit \<longrightarrow>
                    r \<in> set (results (globalSearch st projectId query filters limit)))"
    by blast
next
  assume n: "\<not> truthy (project_contextSummary project) \<and> \<not> truthy (project_thesis project)"
  then show "project_results query project = []"
    by (simp add: project_results_def)
next
  assume n: "\<not> truthy (project_contextSummary project) \<and> \<not> truthy (project_thesis project)"
  then have e: "project_results query project = []"
    by (simp add: project_results_def)
  show "\<forall>r \<in> set (results (globalSearch st projectId query filters limit)).
               result_type r = folder_context \<longrightarrow> folderId r \<noteq> None"
  proof (intro ballI impI)
    fix r
    assume "r \<in> set (results (globalSearch st projectId query filters limit))"
      and fc: "result_type r = folder_context"
    then have "r \<in> set (candidate_pool st project projectId query filters)"
      using results_subset_pool[OF assms] by blast
    from pool_folder_context[OF this fc] e show "folderId r \<noteq> None" by simp
  qed
qed

theorem project_level_result_witness:
  "(\<exists>r. project_results ''cats'' thesis_project = [r] \<and> result_type r = folder_context \<and>
        folderId r = None \<and> similarityScore r = 8106479329266892 / 2 ^ 53 \<and>
        r \<in> set (results (globalSearch thesis_project_state ''p1'' ''cats'' None 20)))
   \<and> project_results ''cat'' named_project = []"
proof -
  have f1: "find (\<lambda>p. project_id p = ''p1'') (projects thesis_project_state) = Some thesis_project"
    by (simp add: thesis_project_state_def thesis_project_def)
  have t1: "truthy (project_contextSummary thesis_project) \<or> truthy (project_thesis thesis_project)"
    by (simp add: thesis_project_def truthy_def)
  have s1: "textMatchScore ''cats'' (project_text thesis_project) = 8106479329266892 / 2 ^ 53"
    by code_simp
  have n1: "int (totalResults (globalSearch thesis_project_state ''p1'' ''cats'' None 20)) \<le> 20"
    by code_simp
  have f2: "find (\<lambda>p. project_id p = ''p1'') (projects named_project_state) = Some named_project"
    by (simp add: named_project_state_def named_project_def)
  have t2: "\<not> truthy (project_contextSummary named_project) \<and> \<not> truthy (project_thesis named_project)"
    by (simp add: named_project_def truthy_def)
  from project_level_result[OF f1, of "''cats''" None 20] t1 s1 n1
  have "\<exists>r. project_results ''cats'' thesis_project = [r] \<and> result_type r = folder_context \<and>
        folderId r = None \<and> similarityScore r = 8106479329266892 / 2 ^ 53 \<and>
        r \<in> set (results (globalSearch thesis_project_state ''p1'' ''cats'' None 20))"
    by auto
  moreover from project_level_result[OF f2, of "''cat''" None 20] t2
  have "project_results ''cat'' named_project = []"
    by blast
  ultimately show ?thesis by blast
qed

text \<open>
  The claim as stated fails for a project that has a name only: the name \<open>cat\<close> scores
  \<open>0.8999999999999999\<close> against the query \<open>cat\<close>, and the search returns nothing.
\<close>

theorem project_name_only_counterexample:
  "textMatchScore ''cat'' ''cat'' = 8106479329266892 / 2 ^ 53
   \<and> globalSearch named_project_state ''p1'' ''cat'' None 20 = \<lparr>results = [], totalResults = 0\<rparr>"
  by code_simp

lemma filter_without_folderIds [simp]:
  "filter_folderIds (without_folderIds filters) = None"
  "filter_documentIds (without_folderIds filters) = filter_documentIds filters"
  "filter_categories (without_folderIds filters) = filter_categories filters"
  by (cases filters; simp add: without_folderIds_def filter_folderIds_def filter_documentIds_def
      filter_categories_def)+

lemma excluded_by_folderIds_only_if:
  "excluded_by_folderIds filters pd \<Longrightarrow>
     \<exists>ids fid. filter_folderIds filters = Some ids \<and> pd_folderId pd = Some fid \<and> fid \<notin> set ids"
  by (auto simp: excluded_by_folderIds_def truthy_def not_listed_def split: option.splits)

lemma not_excluded_unfiled: "pd_folderId pd = None \<Longrightarrow> \<not> excluded_by_folderIds filters pd"
  by (simp add: excluded_by_folderIds_def truthy_def)

lemma document_results_unfiled:
  "pd_folderId pd = None \<Longrightarrow>
     document_results query filters (pd, d) = document_results query (without_folderIds filters) (pd, d)"
  by (simp add: document_results_def not_excluded_unfiled excluded_by_documentIds_def)

lemma annotation_results_unfiled:
  "pd_folderId pd = None \<Longrightarrow>
     annotation_results query filters (a, pd, d) =
     annotation_results query (without_folderIds filters) (a, pd, d)"
  by (simp add: annotation_results_def not_excluded_unfiled excluded_by_documentIds_def
      excluded_by_categories_def)

text \<open>
  C10. The \<open>folderIds\<close> filter excludes a project document only when a filter is given,
  the document has a folder id and that id is not in the list. A document whose project
  document has no folder, and every annotation of it, gives the same results with the
  filter as without it, and these results are in the pool of \<open>globalSearch\<close>.
\<close>

theorem folder_filter_keeps_unfiled:
  "(excluded_by_folderIds filters pd \<longrightarrow>
      (\<exists>ids fid. filter_folderIds filters = Some ids \<and> pd_folderId pd = Some fid \<and> fid \<notin> set ids))
   \<and> (pd_folderId pd = None \<longrightarrow>
        document_results query filters (pd, d) =
          document_results query (without_folderIds filters) (pd, d)
        \<and> annotation_results query filters (a, pd, d) =
          annotation_results query (without_folderIds filters) (a, pd, d)
        \<and> ((pd, d) \<in> set (select_projectDocs st projectId) \<longrightarrow>
             set (document_results query (without_folderIds filters) (pd, d))
             \<subseteq> set (candidate_pool st project projectId query filters))
        \<and> ((a, pd, d) \<in> set (select_allAnnotations st projectId) \<longrightarrow>
             set (annotation_results query (without_folderIds filters) (a, pd, d))
             \<subseteq> set (candidate_pool st project projectId query filters)))"
proof (intro conjI impI)
  assume "excluded_by_folderIds filters pd"
  then show "\<exists>ids fid. filter_folderIds filters = Some ids \<and> pd_folderId pd = Some fid \<and> fid \<notin> set ids"
    by (rule excluded_by_folderIds_only_if)
next
  assume "pd_folderId pd = None"
  then show "document_results query filters (pd, d) =
          document_results query (without_folderIds filters) (pd, d)"
    by (rule document_results_unfiled)
next
  assume "pd_folderId pd = None"
  then show "annotation_results query filters (a, pd, d) =
          annotation_results query (without_folderIds filters) (a, pd, d)"
    by (rule annotation_results_unfiled)
next
  assume u: "pd_folderId pd = None" and m: "(pd, d) \<in> set (select_projectDocs st projectId)"
  have "set (document_results query filters (pd, d))
        \<subseteq> set (candidate_pool st project projectId query filters)"
    using m by (auto simp: candidate_pool_def)
  then show "set (document_results query (without_folderIds filters) (pd, d))
             \<subseteq> set (candidate_pool st project projectId query filters)"
    using document_results_unfiled[OF u] by simp
next
  assume u: "pd_folderId pd = None" and m: "(a, pd, d) \<in> set (select_allAnnotations st projectId)"
  have "set (annotation_results query filters (a, pd, d))
        \<subseteq> set (candidate_pool st project projectId query filters)"
    using m by (auto simp: candidate_pool_def)
  then show "set (annotation_results query (without_folderIds filters) (a, pd, d))
             \<subseteq> set (candidate_pool st project projectId query filters)"
    using annotation_results_unfiled[OF u] by simp
qed

theorem folder_filter_keeps_unfiled_witness:
  "excluded_by_folderIds f1_only filed_pd
   \<and> (\<exists>ids fid. filter_folderIds f1_only = Some ids \<and> pd_folderId filed_pd = Some fid \<and> fid \<notin> set ids)
   \<and> pd_folderId unfiled_pd = None
   \<and> document_results ''cats'' (without_folderIds f1_only) (unfiled_pd, cats_doc) \<noteq> []
   \<and> document_results ''cats'' f1_only (unfiled_pd, cats_doc) =
       document_results ''cats'' (without_folderIds f1_only) (unfiled_pd, cats_doc)
   \<and> set (document_results ''cats'' (without_folderIds f1_only) (unfiled_pd, cats_doc))
       \<subseteq> set (candidate_pool library_state thesis_project ''p1'' ''cats'' f1_only)
   \<and> annotation_results ''cats'' (without_folderIds f1_only) (cats_ann, unfiled_pd, cats_doc) \<noteq> []
   \<and> set (annotation_results ''cats'' (without_folderIds f1_only) (cats_ann, unfiled_pd, cats_doc))
       \<subseteq> set (candidate_pool library_state thesis_project ''p1'' ''cats'' f1_only)"
proof -
  have ex: "excluded_by_folderIds f1_only filed_pd" by code_simp
  have un: "pd_folderId unfiled_pd = None" by (simp add: unfiled_pd_def)
  have m1: "(unfiled_pd, cats_doc) \<in> set (select_projectDocs library_state ''p1'')" by code_simp
  have m2: "(cats_ann, unfiled_pd, cats_doc) \<in> set (select_allAnnotations library_state ''p1'')"
    by code_simp
  have n1: "document_results ''cats'' (without_folderIds f1_only) (unfiled_pd, cats_doc) \<noteq> []"
    by code_simp
  have n2: "annotation_results ''cats'' (without_folderIds f1_only) (cats_ann, unfiled_pd, cats_doc) \<noteq> []"
    by code_simp
  note a = folder_filter_keeps_unfiled[where filters = f1_only and pd = filed_pd]
  note b = folder_filter_keeps_unfiled[where filters = f1_only and pd = unfiled_pd and d = cats_doc
      and a = cats_ann and st = library_state and projectId = "''p1''" and query = "''cats''"
      and project = thesis_project]
  from a ex have "\<exists>ids fid. filter_folderIds f1_only = Some ids \<and> pd_folderId filed_pd = Some fid \<and> fid \<notin> set ids"
    by blast
  moreover from b un m1 m2 have
    "document_results ''cats'' f1_only (unfiled_pd, cats_doc) =
       document_results ''cats'' (without_folderIds f1_only) (unfiled_pd, cats_doc)"
    "set (document_results ''cats'' (without_folderIds f1_only) (unfiled_pd, cats_doc))
       \<subseteq> set (candidate_pool library_state thesis_project ''p1'' ''cats'' f1_only)"
    "set (annotation_results ''cats'' (without_folderIds f1_only) (cats_ann, unfiled_pd, cats_doc))
       \<subseteq> set (candidate_pool library_state thesis_project ''p1'' ''cats'' f1_only)"
    by blast+
  ultimately show ?thesis using ex un n1 n2 by blast
qed

section \<open>Properties of the embedding fill\<close>

lemma fill_chunk_fst: "fst (fill_chunk provider c st) = with_embedding provider c"
  by (simp add: fill_chunk_def with_embedding_def getEmbedding_call_def split: option.splits)

lemma fill_chunk_calls:
  "provider_calls (snd (fill_chunk provider c st)) =
     provider_calls st @ (if chunk_embedding c = None then [chunk_text c] else [])"
  by (simp add: fill_chunk_def getEmbedding_call_def updateChunkEmbedding_def split: option.splits)

lemma fill_chunk_chunks:
  "chunks (snd (fill_chunk provider c st)) = map (persist provider c) (chunks st)"
proof (cases "chunk_embedding c")
  case None
  then show ?thesis
    by (simp add: fill_chunk_def getEmbedding_call_def updateChunkEmbedding_def persist_def)
next
  case (Some v)
  then have "persist provider c = (\<lambda>s. s)"
    by (simp add: persist_def fun_eq_iff)
  with Some show ?thesis by (simp add: fill_chunk_def)
qed

lemma fill_embeddings_fst:
  "fst (fill_embeddings provider cs st) = map (with_embedding provider) cs"
proof (induction cs arbitrary: st)
  case Nil
  then show ?case by simp
next
  case (Cons c cs)
  show ?case
    using Cons.IH[of "snd (fill_chunk provider c st)"] fill_chunk_fst[of provider c st]
    by (simp add: case_prod_beta)
qed

lemma fill_embeddings_calls:
  "provider_calls (snd (fill_embeddings provider cs st)) =
     provider_calls st @ map chunk_text (filter (\<lambda>c. chunk_embedding c = None) cs)"
proof (induction cs arbitrary: st)
  case Nil
  then show ?case by simp
next
  case (Cons c cs)
  show ?case
    using Cons.IH[of "snd (fill_chunk provider c st)"] fill_chunk_calls[of provider c st]
    by (simp add: case_prod_beta)
qed

lemma fill_embeddings_chunks:
  "chunks (snd (fill_embeddings provider cs st)) = map (fold (persist provider) cs) (chunks st)"
proof (induction cs arbitrary: st)
  case Nil
  then show ?case by simp
next
  case (Cons c cs)
  show ?case
    using Cons.IH[of "snd (fill_chunk provider c st)"] fill_chunk_chunks[of provider c st]
    by (simp add: case_prod_beta)
qed

lemma fold_persist_own:
  assumes "\<forall>c\<in>set cs. chunk_id c = chunk_id s \<longrightarrow> c = s"
    and "s' = s \<or> s' = with_embedding provider s"
  shows "fold (persist provider) cs s' = (if s \<in> set cs then with_embedding provider s else s')"
  using assms
proof (induction cs arbitrary: s')
  case Nil
  then show ?case by simp
next
  case (Cons c cs)
  have id': "chunk_id s' = chunk_id s"
    using Cons.prems(2) by (auto simp: with_embedding_def split: option.splits)
  have rest: "\<forall>c\<in>set cs. chunk_id c = chunk_id s \<longrightarrow> c = s"
    using Cons.prems(1) by simp
  show ?case
  proof (cases "chunk_id c = chunk_id s")
    case True
    then have cs: "c = s" using Cons.prems(1) by simp
    have p: "persist provider c s' = with_embedding provider s"
      using Cons.prems(2) cs
      by (auto simp: persist_def with_embedding_def split: option.splits)
    have "fold (persist provider) cs (with_embedding provider s) =
        (if s \<in> set cs then with_embedding provider s else with_embedding provider s)"
      using Cons.IH[OF rest, of "with_embedding provider s"] by simp
    then show ?thesis using p cs by simp
  next
    case False
    then have ne: "c \<noteq> s" by auto
    have p: "persist provider c s' = s'"
      using False id' by (simp add: persist_def)
    show ?thesis
      using Cons.IH[OF rest Cons.prems(2)] p ne by simp
  qed
qed

lemma with_embedding_documentId [simp]:
  "chunk_documentId (with_embedding provider c) = chunk_documentId c"
  by (simp add: with_embedding_def split: option.splits)

lemma fill_embeddings_persisted:
  assumes "distinct (map chunk_id (chunks st))"
  shows "getChunksForDocument docId
           (snd (fill_embeddings provider (getChunksForDocument docId st) st)) =
         map (with_embedding provider) (getChunksForDocument docId st)"
proof -
  let ?cs = "getChunksForDocument docId st"
  let ?g = "\<lambda>s. if s \<in> set ?cs then with_embedding provider s else s"
  have inj: "inj_on chunk_id (set (chunks st))"
    using assms by (simp add: distinct_map)
  have each: "fold (persist provider) ?cs s = ?g s" if "s \<in> set (chunks st)" for s
  proof -
    have "\<forall>c\<in>set ?cs. chunk_id c = chunk_id s \<longrightarrow> c = s"
      using inj that by (auto simp: getChunksForDocument_def dest: inj_onD)
    from fold_persist_own[OF this, of s provider] show ?thesis by simp
  qed
  have "chunks (snd (fill_embeddings provider ?cs st)) = map ?g (chunks st)"
    using each by (simp add: fill_embeddings_chunks)
  then have "getChunksForDocument docId (snd (fill_embeddings provider ?cs st)) =
      filter (\<lambda>c. chunk_documentId c = docId) (map ?g (chunks st))"
    by (simp add: getChunksForDocument_def)
  also have "\<dots> = map ?g (filter (\<lambda>c. chunk_documentId c = docId) (chunks st))"
    by (simp add: filter_map o_def)
  also have "\<dots> = map (with_embedding provider) ?cs"
    by (simp add: getChunksForDocument_def)
  finally show ?thesis .
qed

lemma fill_chunk_embedded: "chunk_embedding c \<noteq> None \<Longrightarrow> fill_chunk provider c st = (c, st)"
  by (auto simp: fill_chunk_def)

lemma fill_embeddings_embedded:
  "\<forall>c\<in>set cs. chunk_embedding c \<noteq> None \<Longrightarrow> fill_embeddings provider cs st = (cs, st)"
  by (induction cs) (simp_all add: fill_chunk_embedded)

lemma with_embedding_embedded: "chunk_embedding (with_embedding provider c) \<noteq> None"
  by (simp add: with_embedding_def split: option.splits)

lemma searchProjectDocument_effects:
  assumes "searchProjectDocument provider cosineSimilarity searchDocument st projectDocId query =
             Inr (res, st')"
  shows "chunks st' = chunks st \<and>
         (provider_calls st' = provider_calls st \<or> provider_calls st' = provider_calls st @ [query])"
  using assms
  by (auto simp: searchProjectDocument_def getEmbedding_call_def Let_def
      split: option.splits if_splits)

lemma getChunksForDocument_cong:
  "chunks a = chunks b \<Longrightarrow> getChunksForDocument docId a = getChunksForDocument docId b"
  by (simp add: getChunksForDocument_def)

lemma find_id_Some: "find (\<lambda>d. doc_id d = docId) ds = Some doc \<Longrightarrow> doc_id doc = docId"
  by (auto simp: find_Some_iff)

lemma set_intent_run:
  assumes "set_intent_topChunks provider cosineSimilarity getMaxChunksForLevel st docId
             (JString intent) v = (Inr topChunks, st')"
  defines "st2 \<equiv> (updateDocument_userIntent docId intent st)
                    \<lparr>provider_calls := provider_calls st @ [intent]\<rparr>"
  shows "st' = snd (fill_embeddings provider (getChunksForDocument docId st) st2)"
    and "topChunks = map (\<lambda>r. \<lparr>top_text = chunk_text (rk_chunk r),
                         top_startPosition = chunk_startPosition (rk_chunk r),
                         top_id = chunk_id (rk_chunk r)\<rparr>)
                 (select_top getMaxChunksForLevel (validate_level v)
                    (rank_for_intent cosineSimilarity
                       (map (with_embedding provider) (getChunksForDocument docId st))
                       (provider intent)))"
proof -
  from assms(1) obtain doc where doc: "find (\<lambda>d. doc_id d = docId) (documents st) = Some doc"
    by (auto simp: set_intent_topChunks_def split: if_splits option.splits)
  then have id: "doc_id doc = docId" by (rule find_id_Some)
  have c1: "getChunksForDocument docId (updateDocument_userIntent docId intent st) =
            getChunksForDocument docId st"
    by (simp add: getChunksForDocument_def updateDocument_userIntent_def)
  have pc: "provider_calls (updateDocument_userIntent docId intent st) = provider_calls st"
    by (simp add: updateDocument_userIntent_def)
  have ge: "getEmbedding_call provider intent (updateDocument_userIntent docId intent st) =
            (provider intent, st2)"
    by (simp add: getEmbedding_call_def st2_def pc)
  obtain cs' st3 where f: "fill_embeddings provider (getChunksForDocument docId st) st2 = (cs', st3)"
    by (cases "fill_embeddings provider (getChunksForDocument docId st) st2") auto
  have cs': "cs' = map (with_embedding provider) (getChunksForDocument docId st)"
    using fill_embeddings_fst[of provider "getChunksForDocument docId st" st2] f by simp
  from assms(1) doc id c1 ge f
  have r: "st' = st3 \<and>
     topChunks = map (\<lambda>r. \<lparr>top_text = chunk_text (rk_chunk r),
                         top_startPosition = chunk_startPosition (rk_chunk r),
                         top_id = chunk_id (rk_chunk r)\<rparr>)
                 (select_top getMaxChunksForLevel (validate_level v)
                    (rank_for_intent cosineSimilarity cs' (provider intent)))"
    by (auto simp: set_intent_topChunks_def Let_def split: if_splits)
  from r f show "st' = snd (fill_embeddings provider (getChunksForDocument docId st) st2)"
    by simp
  from r cs' show "topChunks = map (\<lambda>r. \<lparr>top_text = chunk_text (rk_chunk r),
                         top_startPosition = chunk_startPosition (rk_chunk r),
                         top_id = chunk_id (rk_chunk r)\<rparr>)
                 (select_top getMaxChunksForLevel (validate_level v)
                    (rank_for_intent cosineSimilarity
                       (map (with_embedding provider) (getChunksForDocument docId st))
                       (provider intent)))"
    by simp
qed

text \<open>
  C8 (as amended). In the set-intent operation, on a store whose chunk ids are distinct:
  the provider is called once for the intent and then exactly once for each chunk of the
  document that has no vector, with that chunk's text, and not at all for a chunk that has
  one; when the ranking is made the store holds every chunk of the document with its
  vector (the stored one, or the provider's for its text), and the ranking is over these
  chunks; filling the document again calls the provider for no chunk. The search within
  one project document ranks only the chunks that have a vector: it leaves the stored
  chunks as they are and calls the provider at most once, for the query.
\<close>

theorem lazy_embedding:
  "(distinct (map chunk_id (chunks st)) \<longrightarrow>
    set_intent_topChunks provider cosineSimilarity getMaxChunksForLevel st docId (JString intent) v
      = (Inr topChunks, st') \<longrightarrow>
      provider_calls st' =
        provider_calls st @ [intent] @
        map chunk_text (filter (\<lambda>c. chunk_embedding c = None) (getChunksForDocument docId st))
      \<and> getChunksForDocument docId st' =
          map (with_embedding provider) (getChunksForDocument docId st)
      \<and> topChunks = map (\<lambda>r. \<lparr>top_text = chunk_text (rk_chunk r),
                         top_startPosition = chunk_startPosition (rk_chunk r),
                         top_id = chunk_id (rk_chunk r)\<rparr>)
                 (select_top getMaxChunksForLevel (validate_level v)
                    (rank_for_intent cosineSimilarity (getChunksForDocument docId st')
                       (provider intent)))
      \<and> fill_embeddings provider (getChunksForDocument docId st') st' =
          (getChunksForDocument docId st', st'))
   \<and> (searchProjectDocument provider cosineSimilarity searchDocument st projectDocId query
         = Inr (res, st'') \<longrightarrow>
       chunks st'' = chunks st \<and>
       (provider_calls st'' = provider_calls st \<or> provider_calls st'' = provider_calls st @ [query]))"
proof (intro conjI impI)
  assume d: "distinct (map chunk_id (chunks st))"
    and run: "set_intent_topChunks provider cosineSimilarity getMaxChunksForLevel st docId
                (JString intent) v = (Inr topChunks, st')"
  define st2 where "st2 = (updateDocument_userIntent docId intent st)
                    \<lparr>provider_calls := provider_calls st @ [intent]\<rparr>"
  have ch2: "chunks st2 = chunks st"
    by (simp add: st2_def updateDocument_userIntent_def)
  have cs2: "getChunksForDocument docId st2 = getChunksForDocument docId st"
    using ch2 by (rule getChunksForDocument_cong)
  have st': "st' = snd (fill_embeddings provider (getChunksForDocument docId st) st2)"
    using set_intent_run(1)[OF run] by (simp add: st2_def)
  show calls: "provider_calls st' =
        provider_calls st @ [intent] @
        map chunk_text (filter (\<lambda>c. chunk_embedding c = None) (getChunksForDocument docId st))"
    unfolding st' fill_embeddings_calls by (simp add: st2_def)
  show persisted: "getChunksForDocument docId st' =
          map (with_embedding provider) (getChunksForDocument docId st)"
    using fill_embeddings_persisted[of st2 docId provider] d ch2 cs2 st' by simp
  show "topChunks = map (\<lambda>r. \<lparr>top_text = chunk_text (rk_chunk r),
                         top_startPosition = chunk_startPosition (rk_chunk r),
                         top_id = chunk_id (rk_chunk r)\<rparr>)
                 (select_top getMaxChunksForLevel (validate_level v)
                    (rank_for_intent cosineSimilarity (getChunksForDocument docId st')
                       (provider intent)))"
    using set_intent_run(2)[OF run] persisted by simp
  have "\<forall>c\<in>set (getChunksForDocument docId st'). chunk_embedding c \<noteq> None"
    unfolding persisted using with_embedding_embedded[of provider] by auto
  then show "fill_embeddings provider (getChunksForDocument docId st') st' =
          (getChunksForDocument docId st', st')"
    by (rule fill_embeddings_embedded)
next
  assume "searchProjectDocument provider cosineSimilarity searchDocument st projectDocId query
         = Inr (res, st'')"
  from searchProjectDocument_effects[OF this] show "chunks st'' = chunks st" by blast
next
  assume "searchProjectDocument provider cosineSimilarity searchDocument st projectDocId query
         = Inr (res, st'')"
  from searchProjectDocument_effects[OF this]
  show "provider_calls st'' = provider_calls st \<or> provider_calls st'' = provider_calls st @ [query]"
    by blast
qed

theorem lazy_embedding_witness:
  "set_intent_topChunks const_provider const_cosine spec_maxChunks mixed_state ''d1''
       (JString ''cats'') JUndefined
     = (Inr [\<lparr>top_text = ''cats purr'', top_startPosition = 9, top_id = ''c1''\<rparr>], after_set_intent)
   \<and> provider_calls after_set_intent = provider_calls mixed_state @ [''cats'', ''cats purr'']
   \<and> getChunksForDocument ''d1'' after_set_intent =
       [embedded_chunk, unembedded_chunk\<lparr>chunk_embedding := Some (const_provider ''cats purr'')\<rparr>]
   \<and> fill_embeddings const_provider (getChunksForDocument ''d1'' after_set_intent) after_set_intent =
       (getChunksForDocument ''d1'' after_set_intent, after_set_intent)
   \<and> searchProjectDocument const_provider const_cosine no_quotes mixed_state ''pd1'' ''cats''
       = Inr ([()], mixed_state\<lparr>provider_calls := [''cats'']\<rparr>)
   \<and> chunks (mixed_state\<lparr>provider_calls := [''cats'']\<rparr>) = chunks mixed_state"
proof -
  have d: "distinct (map chunk_id (chunks mixed_state))" by code_simp
  have run: "set_intent_topChunks const_provider const_cosine spec_maxChunks mixed_state ''d1''
       (JString ''cats'') JUndefined
     = (Inr [\<lparr>top_text = ''cats purr'', top_startPosition = 9, top_id = ''c1''\<rparr>], after_set_intent)"
    by code_simp
  have search: "searchProjectDocument const_provider const_cosine no_quotes mixed_state ''pd1'' ''cats''
       = Inr ([()], mixed_state\<lparr>provider_calls := [''cats'']\<rparr>)"
    by code_simp
  note t = lazy_embedding[where st = mixed_state and provider = const_provider
      and cosineSimilarity = const_cosine and getMaxChunksForLevel = spec_maxChunks
      and docId = "''d1''" and intent = "''cats''" and v = JUndefined
      and topChunks = "[\<lparr>top_text = ''cats purr'', top_startPosition = 9, top_id = ''c1''\<rparr>]"
      and st' = after_set_intent and searchDocument = no_quotes and projectDocId = "''pd1''"
      and query = "''cats''" and res = "[()]" and st'' = "mixed_state\<lparr>provider_calls := [''cats'']\<rparr>"]
  from t d run have
    calls: "provider_calls after_set_intent =
        provider_calls mixed_state @ [''cats''] @
        map chunk_text (filter (\<lambda>c. chunk_embedding c = None) (getChunksForDocument ''d1'' mixed_state))"
    and persisted: "getChunksForDocument ''d1'' after_set_intent =
          map (with_embedding const_provider) (getChunksForDocument ''d1'' mixed_state)"
    and again: "fill_embeddings const_provider (getChunksForDocument ''d1'' after_set_intent) after_set_intent =
       (getChunksForDocument ''d1'' after_set_intent, after_set_intent)"
    by blast+
  from t search have unchanged: "chunks (mixed_state\<lparr>provider_calls := [''cats'']\<rparr>) = chunks mixed_state"
    by blast
  have e1: "map chunk_text (filter (\<lambda>c. chunk_embedding c = None) (getChunksForDocument ''d1'' mixed_state))
        = [''cats purr'']"
    by code_simp
  have e2: "map (with_embedding const_provider) (getChunksForDocument ''d1'' mixed_state) =
       [embedded_chunk, unembedded_chunk\<lparr>chunk_embedding := Some (const_provider ''cats purr'')\<rparr>]"
    by code_simp
  from calls e1 have "provider_calls after_set_intent = provider_calls mixed_state @ [''cats'', ''cats purr'']"
    by simp
  with run persisted e2 again search unchanged show ?thesis by simp
qed

text \<open>
  The claim as stated fails for the search within one project document: the document has
  a chunk without vector, the only provider call is the one for the query, and the chunk
  is still without vector afterwards.
\<close>

theorem search_skips_unembedded_counterexample:
  "chunk_embedding unembedded_chunk = None
   \<and> unembedded_chunk \<in> set (getChunksForDocument ''d1'' mixed_state)
   \<and> searchProjectDocument const_provider const_cosine no_quotes mixed_state ''pd1'' ''cats''
       = Inr ([()], mixed_state\<lparr>provider_calls := [''cats'']\<rparr>)"
  by code_simp

section \<open>Properties of the thoroughness selection\<close>

lemma filter_eq_takeWhile_desc:
  "descending rs \<Longrightarrow>
     filter (\<lambda>r. m \<le> rk_similarity r) rs = takeWhile (\<lambda>r. m \<le> rk_similarity r) rs"
proof (induction rs)
  case Nil
  then show ?case by simp
next
  case (Cons x xs)
  then have d: "descending xs" and le: "\<forall>y\<in>set xs. rk_similarity y \<le> rk_similarity x"
    by (auto simp: descending_def)
  show ?case
  proof (cases "m \<le> rk_similarity x")
    case True
    then show ?thesis using Cons.IH[OF d] by simp
  next
    case False
    then have "\<forall>y\<in>set xs. \<not> m \<le> rk_similarity y" using le by fastforce
    then have "filter (\<lambda>r. m \<le> rk_similarity r) xs = []" by (simp add: filter_empty_conv)
    with False show ?thesis by simp
  qed
qed

lemma sorted_neg_descending:
  "sorted (map (\<lambda>r. - rk_similarity r) rs) \<Longrightarrow> descending rs"
  by (simp add: descending_def sorted_wrt_map)

lemma rank_for_intent_descending: "descending (rank_for_intent cosineSimilarity cs e)"
  unfolding rank_for_intent_def
  by (rule sorted_neg_descending) simp

lemma validate_level_valid: "validate_level (JString (level_name l)) = l"
  by (cases l) (simp_all add: validate_level_def validLevels_def)

lemma level_name_inj: "level_name a = level_name b \<Longrightarrow> a = b"
  by (cases a; cases b) simp_all

lemma validate_level_invalid:
  assumes "\<forall>l. v \<noteq> JString (level_name l)"
  shows "validate_level v = standard"
proof (cases "v = JUndefined")
  case True
  then show ?thesis by (simp add: validate_level_def validLevels_def)
next
  case False
  have "find (\<lambda>l. JString (level_name l) = v) validLevels = None"
    using assms by (auto simp: find_None_iff)
  with False show ?thesis by (simp add: validate_level_def Let_def)
qed

lemma double_tenth: "to_double (1 / 10) = 7205759403792794 / 2 ^ 56"
  by code_simp

lemma double_three_tenths: "to_double (3 / 10) = 5404319552844595 / 2 ^ 54"
  by code_simp

lemma kept_standard:
  "filter (\<lambda>r. to_double (3 / 10) \<le> rk_similarity r)
     [candidate ''a'' (to_double (9 / 10)), candidate ''b'' (to_double (5 / 10)),
      candidate ''c'' (to_double (2 / 10))] =
   [candidate ''a'' (to_double (9 / 10)), candidate ''b'' (to_double (5 / 10))]"
  by code_simp

lemma kept_exhaustive:
  "filter (\<lambda>r. to_double (1 / 10) \<le> rk_similarity r)
     [candidate ''a'' (to_double (9 / 10)), candidate ''b'' (to_double (5 / 10)),
      candidate ''c'' (to_double (2 / 10))] =
   [candidate ''a'' (to_double (9 / 10)), candidate ''b'' (to_double (5 / 10)),
      candidate ''c'' (to_double (2 / 10))]"
  by code_simp

lemma slice_upto_take: "slice_upto xs (enat n) = take n xs"
  by (simp add: slice_upto_def)

lemma slice_upto_all: "slice_upto xs \<infinity> = xs"
  by (simp add: slice_upto_def)

lemma length_slice_upto: "enat (length (slice_upto xs m)) \<le> m"
  by (cases m) (simp_all add: slice_upto_def)

lemma slice_upto_fits: "enat (length xs) \<le> m \<Longrightarrow> slice_upto xs m = xs"
  by (cases m) (simp_all add: slice_upto_def)

lemma prefix_slice_upto: "prefix (slice_upto xs m) xs"
  by (cases m) (simp_all add: slice_upto_def take_is_prefix)

lemma select_top_slice:
  "select_top getMaxChunksForLevel level ranked =
     slice_upto
       (filter (\<lambda>r. (if level = exhaustive then to_double (1 / 10) else to_double (3 / 10))
                       \<le> rk_similarity r) ranked)
       (getMaxChunksForLevel level)"
  by (simp add: select_top_def minSimilarity_of_def Let_def)

lemma select_top_standard_example:
  "select_top getMaxChunksForLevel standard
     [candidate ''a'' (to_double (9 / 10)), candidate ''b'' (to_double (5 / 10)),
      candidate ''c'' (to_double (2 / 10))] =
   slice_upto [candidate ''a'' (to_double (9 / 10)), candidate ''b'' (to_double (5 / 10))]
     (getMaxChunksForLevel standard)"
  unfolding select_top_slice using kept_standard by simp

lemma select_top_exhaustive_example:
  "select_top getMaxChunksForLevel exhaustive
     [candidate ''a'' (to_double (9 / 10)), candidate ''b'' (to_double (5 / 10)),
      candidate ''c'' (to_double (2 / 10))] =
   slice_upto [candidate ''a'' (to_double (9 / 10)), candidate ''b'' (to_double (5 / 10)),
      candidate ''c'' (to_double (2 / 10))]
     (getMaxChunksForLevel exhaustive)"
  unfolding select_top_slice using kept_exhaustive by simp

text \<open>
  C6. The floor of a level is the double of \<open>0.1\<close> for \<open>exhaustive\<close> and the double of \<open>0.3\<close>
  for every other level. The selection is made of the candidates whose similarity is at
  least the floor, in the order of the ranking: the first \<open>n\<close> of them when the level's
  maximum chunk count is \<open>n\<close>, and all of them when the level has no maximum or when there
  are no more of them than the maximum. The selection is never longer than the maximum. On
  a descending ranking, as the one the handler builds, the candidates that reach the floor
  are the longest prefix whose members all reach it, so the selection is a prefix of the
  ranking. A valid level name is taken as it is; any other value of \<open>thoroughness\<close> gives
  the level \<open>standard\<close>, and the handler then answers as it does for \<open>standard\<close>. A handler
  that answers with top chunks answers with no more of them than the maximum of the
  validated level. The similarities \<open>[0.9, 0.5, 0.2]\<close> at the level \<open>standard\<close> select the
  first two candidates, in that order, when the maximum is at least two, and the first
  candidate alone when the maximum is one; at the level \<open>exhaustive\<close> they select all three
  when the maximum is at least three, and the first two when it is two.
\<close>

theorem thoroughness_selection:
  fixes getMaxChunksForLevel :: "ThoroughnessLevel \<Rightarrow> enat"
    and level :: ThoroughnessLevel and ranked :: "RankedCandidate list"
  defines "minSimilarity \<equiv> if level = exhaustive then to_double (1 / 10) else to_double (3 / 10)"
  defines "kept \<equiv> filter (\<lambda>r. minSimilarity \<le> rk_similarity r) ranked"
  defines "selected \<equiv> select_top getMaxChunksForLevel level ranked"
  defines "abc \<equiv> [candidate ''a'' (to_double (9 / 10)), candidate ''b'' (to_double (5 / 10)),
                   candidate ''c'' (to_double (2 / 10))]"
  shows
  "to_double (1 / 10) = 7205759403792794 / 2 ^ 56
   \<and> to_double (3 / 10) = 5404319552844595 / 2 ^ 54
   \<and> (getMaxChunksForLevel level = enat n \<longrightarrow> selected = take n kept)
   \<and> (getMaxChunksForLevel level = \<infinity> \<longrightarrow> selected = kept)
   \<and> enat (length selected) \<le> getMaxChunksForLevel level
   \<and> (enat (length kept) \<le> getMaxChunksForLevel level \<longrightarrow> selected = kept)
   \<and> (descending ranked \<longrightarrow>
        kept = takeWhile (\<lambda>r. minSimilarity \<le> rk_similarity r) ranked \<and> prefix selected ranked)
   \<and> descending (rank_for_intent cosineSimilarity chunksWithEmbeddings intentEmbedding)
   \<and> validate_level (JString (level_name level)) = level
   \<and> ((\<forall>l. v \<noteq> JString (level_name l)) \<longrightarrow>
        validate_level v = standard \<and>
        set_intent_topChunks provider cosineSimilarity getMaxChunksForLevel st docId intent v =
        set_intent_topChunks provider cosineSimilarity getMaxChunksForLevel st docId intent
          (JString ''standard''))
   \<and> (set_intent_topChunks provider cosineSimilarity getMaxChunksForLevel st docId intent v =
         (Inr topChunks, st') \<longrightarrow>
        enat (length topChunks) \<le> getMaxChunksForLevel (validate_level v))
   \<and> (2 \<le> getMaxChunksForLevel standard \<longrightarrow>
        select_top getMaxChunksForLevel standard abc =
          [candidate ''a'' (to_double (9 / 10)), candidate ''b'' (to_double (5 / 10))])
   \<and> (getMaxChunksForLevel standard = 1 \<longrightarrow>
        select_top getMaxChunksForLevel standard abc = [candidate ''a'' (to_double (9 / 10))])
   \<and> (3 \<le> getMaxChunksForLevel exhaustive \<longrightarrow>
        select_top getMaxChunksForLevel exhaustive abc = abc)
   \<and> (getMaxChunksForLevel exhaustive = 2 \<longrightarrow>
        select_top getMaxChunksForLevel exhaustive abc =
          [candidate ''a'' (to_double (9 / 10)), candidate ''b'' (to_double (5 / 10))])"
proof (intro conjI impI)
  have sel: "selected = slice_upto kept (getMaxChunksForLevel level)"
    unfolding selected_def kept_def minSimilarity_def by (rule select_top_slice)
  show "to_double (1 / 10) = 7205759403792794 / 2 ^ 56" by (rule double_tenth)
  show "to_double (3 / 10) = 5404319552844595 / 2 ^ 54" by (rule double_three_tenths)
  show "enat (length selected) \<le> getMaxChunksForLevel level"
    unfolding sel by (rule length_slice_upto)
  show "descending (rank_for_intent cosineSimilarity chunksWithEmbeddings intentEmbedding)"
    by (rule rank_for_intent_descending)
  show "validate_level (JString (level_name level)) = level"
    by (rule validate_level_valid)
  {
    assume "getMaxChunksForLevel level = enat n"
    then show "selected = take n kept" by (simp add: sel slice_upto_take)
  }
  {
    assume "getMaxChunksForLevel level = \<infinity>"
    then show "selected = kept" by (simp add: sel slice_upto_all)
  }
  {
    assume "enat (length kept) \<le> getMaxChunksForLevel level"
    then show "selected = kept" unfolding sel by (rule slice_upto_fits)
  }
  {
    assume d: "descending ranked"
    then show k: "kept = takeWhile (\<lambda>r. minSimilarity \<le> rk_similarity r) ranked"
      unfolding kept_def by (rule filter_eq_takeWhile_desc)
    have "prefix selected kept" unfolding sel by (rule prefix_slice_upto)
    moreover have "prefix kept ranked" unfolding k by (rule takeWhile_is_prefix)
    ultimately show "prefix selected ranked" by (rule prefix_order.trans)
  }
  {
    assume "\<forall>l. v \<noteq> JString (level_name l)"
    then show "validate_level v = standard" by (rule validate_level_invalid)
  }
  {
    assume "\<forall>l. v \<noteq> JString (level_name l)"
    then have "validate_level v = validate_level (JString ''standard'')"
      using validate_level_invalid validate_level_valid[of standard] by simp
    then show "set_intent_topChunks provider cosineSimilarity getMaxChunksForLevel st docId intent v =
          set_intent_topChunks provider cosineSimilarity getMaxChunksForLevel st docId intent
            (JString ''standard'')"
      unfolding set_intent_topChunks_def by (simp only:)
  }
  {
    assume r: "set_intent_topChunks provider cosineSimilarity getMaxChunksForLevel st docId intent v =
         (Inr topChunks, st')"
    then obtain i where i: "intent = JString i"
      by (cases intent) (simp_all add: set_intent_topChunks_def)
    from set_intent_run(2)[OF r[unfolded i]]
    show "enat (length topChunks) \<le> getMaxChunksForLevel (validate_level v)"
      by (simp add: select_top_slice length_slice_upto)
  }
  {
    assume "2 \<le> getMaxChunksForLevel standard"
    then show "select_top getMaxChunksForLevel standard abc =
          [candidate ''a'' (to_double (9 / 10)), candidate ''b'' (to_double (5 / 10))]"
      unfolding abc_def select_top_standard_example
      by (intro slice_upto_fits) (simp add: numeral_eq_enat numeral_2_eq_2)
  }
  {
    assume "getMaxChunksForLevel standard = 1"
    then show "select_top getMaxChunksForLevel standard abc = [candidate ''a'' (to_double (9 / 10))]"
      unfolding abc_def select_top_standard_example
      by (simp add: one_enat_def slice_upto_take)
  }
  {
    assume "3 \<le> getMaxChunksForLevel exhaustive"
    then show "select_top getMaxChunksForLevel exhaustive abc = abc"
      unfolding abc_def select_top_exhaustive_example
      by (intro slice_upto_fits) (simp add: numeral_eq_enat numeral_3_eq_3)
  }
  {
    assume "getMaxChunksForLevel exhaustive = 2"
    then show "select_top getMaxChunksForLevel exhaustive abc =
          [candidate ''a'' (to_double (9 / 10)), candidate ''b'' (to_double (5 / 10))]"
      unfolding abc_def select_top_exhaustive_example
      by (simp add: numeral_eq_enat slice_upto_take)
  }
qed

text \<open>
  With the maximum chunk counts \<open>10\<close>, \<open>30\<close>, \<open>100\<close> and none, and with a maximum of one
  chunk for every level; the document of the example store has two chunks that are as
  similar to the intent as can be.
\<close>

theorem thoroughness_selection_witness:
  "select_top spec_maxChunks standard
      [candidate ''a'' (to_double (9 / 10)), candidate ''b'' (to_double (5 / 10)),
       candidate ''c'' (to_double (2 / 10))] =
      [candidate ''a'' (to_double (9 / 10)), candidate ''b'' (to_double (5 / 10))]
   \<and> select_top one_chunk standard
      [candidate ''a'' (to_double (9 / 10)), candidate ''b'' (to_double (5 / 10)),
       candidate ''c'' (to_double (2 / 10))] =
      [candidate ''a'' (to_double (9 / 10))]
   \<and> select_top spec_maxChunks exhaustive
      [candidate ''a'' (to_double (9 / 10)), candidate ''b'' (to_double (5 / 10)),
       candidate ''c'' (to_double (2 / 10))] =
      [candidate ''a'' (to_double (9 / 10)), candidate ''b'' (to_double (5 / 10)),
       candidate ''c'' (to_double (2 / 10))]
   \<and> descending [candidate ''a'' (to_double (9 / 10)), candidate ''b'' (to_double (5 / 10)),
       candidate ''c'' (to_double (2 / 10))]
   \<and> validate_level (JString ''deep'') = standard
   \<and> validate_level (JNumber 3) = standard
   \<and> fst (set_intent_topChunks const_provider const_cosine spec_maxChunks twin_state ''d1''
             (JString ''cats'') (JString ''deep'')) =
       Inr [\<lparr>top_text = ''cats purr'', top_startPosition = 9, top_id = ''c1''\<rparr>,
            \<lparr>top_text = ''cats nap'', top_startPosition = 18, top_id = ''c2''\<rparr>]
   \<and> fst (set_intent_topChunks const_provider const_cosine one_chunk twin_state ''d1''
             (JString ''cats'') (JString ''deep'')) =
       Inr [\<lparr>top_text = ''cats purr'', top_startPosition = 9, top_id = ''c1''\<rparr>]"
proof -
  let ?abc = "[candidate ''a'' (to_double (9 / 10)), candidate ''b'' (to_double (5 / 10)),
               candidate ''c'' (to_double (2 / 10))]"
  have d: "descending ?abc"
    unfolding descending_def by code_simp
  have m: "2 \<le> spec_maxChunks standard"
    by (simp add: spec_maxChunks_def)
  have u: "spec_maxChunks exhaustive = \<infinity>"
    by (simp add: spec_maxChunks_def)
  have o: "one_chunk standard = 1"
    by (simp add: one_chunk_def)
  have k: "filter (\<lambda>r. (if exhaustive = exhaustive then to_double (1 / 10) else to_double (3 / 10))
                          \<le> rk_similarity r) ?abc = ?abc"
    by code_simp
  have i1: "\<forall>l. JString ''deep'' \<noteq> JString (level_name l)"
  proof
    fix l show "JString ''deep'' \<noteq> JString (level_name l)" by (cases l) simp_all
  qed
  have i2: "\<forall>l. JNumber 3 \<noteq> JString (level_name l)" by simp
  have h30: "fst (set_intent_topChunks const_provider const_cosine spec_maxChunks twin_state ''d1''
             (JString ''cats'') (JString ''standard'')) =
       Inr [\<lparr>top_text = ''cats purr'', top_startPosition = 9, top_id = ''c1''\<rparr>,
            \<lparr>top_text = ''cats nap'', top_startPosition = 18, top_id = ''c2''\<rparr>]"
    by code_simp
  have h1: "fst (set_intent_topChunks const_provider const_cosine one_chunk twin_state ''d1''
             (JString ''cats'') (JString ''standard'')) =
       Inr [\<lparr>top_text = ''cats purr'', top_startPosition = 9, top_id = ''c1''\<rparr>]"
    by code_simp
  note t = thoroughness_selection[where getMaxChunksForLevel = spec_maxChunks]
  note t1 = thoroughness_selection[where getMaxChunksForLevel = one_chunk]
  from t m have s: "select_top spec_maxChunks standard ?abc =
      [candidate ''a'' (to_double (9 / 10)), candidate ''b'' (to_double (5 / 10))]"
    by blast
  from t1 o have s1: "select_top one_chunk standard ?abc = [candidate ''a'' (to_double (9 / 10))]"
    by blast
  from t[where level = exhaustive and ranked = ?abc] u
  have "select_top spec_maxChunks exhaustive ?abc =
        filter (\<lambda>r. (if exhaustive = exhaustive then to_double (1 / 10) else to_double (3 / 10))
                          \<le> rk_similarity r) ?abc"
    by blast
  then have se: "select_top spec_maxChunks exhaustive ?abc = ?abc"
    unfolding k .
  from t[where v = "JString ''deep''"] i1 have v1: "validate_level (JString ''deep'') = standard"
    by blast
  from t[where v = "JNumber 3"] i2 have v2: "validate_level (JNumber 3) = standard"
    by blast
  from t[where v = "JString ''deep'' " and provider = const_provider and cosineSimilarity = const_cosine
         and st = twin_state and docId = "''d1''" and intent = "JString ''cats''"] i1
  have e30: "set_intent_topChunks const_provider const_cosine spec_maxChunks twin_state ''d1''
             (JString ''cats'') (JString ''deep'') =
        set_intent_topChunks const_provider const_cosine spec_maxChunks twin_state ''d1''
             (JString ''cats'') (JString ''standard'')"
    by blast
  from t1[where v = "JString ''deep'' " and provider = const_provider and cosineSimilarity = const_cosine
         and st = twin_state and docId = "''d1''" and intent = "JString ''cats''"] i1
  have e1: "set_intent_topChunks const_provider const_cosine one_chunk twin_state ''d1''
             (JString ''cats'') (JString ''deep'') =
        set_intent_topChunks const_provider const_cosine one_chunk twin_state ''d1''
             (JString ''cats'') (JString ''standard'')"
    by blast
  from d s s1 se v1 v2 h30[folded e30] h1[folded e1] show ?thesis
    by blast
qed

end
